theory Spec2Isabelle
  imports Main
begin

section \<open>Python strings\<close>

text \<open>
  Strings are lists of characters, and a character is read as the code point of the same
  number (0 to 255). \<open>strip\<close> and \<open>int\<close> remove the characters of this range for which
  Python's \<open>str.isspace\<close> holds, among them U+0085 and U+00A0. \<open>upper\<close> follows Python on
  this range: \<open>a\<close>-\<open>z\<close> and the accented small letters go to their capitals, the sharp s
  becomes \<open>SS\<close>. The capitals of the micro sign and of y with diaeresis lie beyond the
  range; the model leaves these two characters in place, which like their capitals are
  neither letters A-P, nor digits, nor spaces.
\<close>

definition py_isspace :: "char \<Rightarrow> bool" where
  "py_isspace c =
     (let n = (of_char c :: nat)
      in (9 \<le> n \<and> n \<le> 13) \<or> (28 \<le> n \<and> n \<le> 32) \<or> n = 133 \<or> n = 160)"

definition py_strip :: "string \<Rightarrow> string" where
  "py_strip s = rev (dropWhile py_isspace (rev (dropWhile py_isspace s)))"

definition upper_char :: "char \<Rightarrow> char" where
  "upper_char c =
     (let n = (of_char c :: nat)
      in if (97 \<le> n \<and> n \<le> 122) \<or> (224 \<le> n \<and> n \<le> 254 \<and> n \<noteq> 247) then char_of (n - 32) else c)"

definition upper_chars :: "char \<Rightarrow> string" where
  "upper_chars c = (if (of_char c :: nat) = 223 then ''SS'' else [upper_char c])"

definition py_upper :: "string \<Rightarrow> string" where
  "py_upper s = concat (map upper_chars s)"

definition py_startswith :: "string \<Rightarrow> string \<Rightarrow> bool" where
  "py_startswith s p = (take (length p) s = p)"

definition is_digit :: "char \<Rightarrow> bool" where
  "is_digit c = (let n = (of_char c :: nat) in 48 \<le> n \<and> n \<le> 57)"

definition digit_val :: "char \<Rightarrow> int" where
  "digit_val c = int (of_char c) - 48"

text \<open>
  The digits of a decimal literal as \<open>int()\<close> accepts them: at least one digit, and single
  underscores only between two digits. The first argument tells whether the previous
  character was a digit.
\<close>

fun digits_ok :: "bool \<Rightarrow> string \<Rightarrow> bool" where
  "digits_ok prev [] = prev"
| "digits_ok prev (c # cs) =
     (if is_digit c then digits_ok True cs
      else if c = CHR ''_'' then prev \<and> digits_ok False cs
      else False)"

definition digits_value :: "string \<Rightarrow> int" where
  "digits_value s = foldl (\<lambda>acc c. 10 * acc + digit_val c) 0 (filter is_digit s)"

definition unsigned_int :: "string \<Rightarrow> int option" where
  "unsigned_int s = (if digits_ok False s then Some (digits_value s) else None)"

text \<open>\<open>int(s)\<close> in base 10: surrounding whitespace, an optional sign, the digits. \<open>None\<close> is ValueError.\<close>

definition py_int :: "string \<Rightarrow> int option" where
  "py_int s =
     (case py_strip s of
        [] \<Rightarrow> None
      | c # r \<Rightarrow>
          if c = CHR ''+'' then unsigned_int r
          else if c = CHR ''-'' then map_option uminus (unsigned_int r)
          else unsigned_int (c # r))"

definition digit_char :: "nat \<Rightarrow> char" where
  "digit_char d = char_of (48 + d)"

fun str_nat :: "nat \<Rightarrow> string" where
  "str_nat n = (if n < 10 then [digit_char n] else str_nat (n div 10) @ [digit_char (n mod 10)])"

definition py_str_int :: "int \<Rightarrow> string" where
  "py_str_int i = (if i < 0 then CHR ''-'' # str_nat (nat (- i)) else str_nat (nat i))"

text \<open>The format \<open>{col_num:02d}\<close>: the decimal text, padded with zeros after the sign to width 2.\<close>

definition format_02d :: "int \<Rightarrow> string" where
  "format_02d i = (if 0 \<le> i \<and> i < 10 then CHR ''0'' # py_str_int i else py_str_int i)"

fun join :: "string \<Rightarrow> string list \<Rightarrow> string" where
  "join sep [] = []"
| "join sep [x] = x"
| "join sep (x # y # ys) = x @ sep @ join sep (y # ys)"

section \<open>Errors\<close>

text \<open>
  Every exception the code can raise is a value. A pydantic \<open>ValidationError\<close> carries one
  entry per failing field: the field's name and the message.
\<close>

datatype error =
    FileNotFoundError string
  | ValueError string
  | ValidationError "(string \<times> string) list"
  | AttributeError string
  | IndexError string

section \<open>models.py: the well validator\<close>

text \<open>The body of the \<open>try\<close> block of \<open>normalize_well_name\<close>; \<open>int\<close> raises ValueError on bad text.\<close>

definition well_try_body :: "char \<Rightarrow> string \<Rightarrow> error + string" where
  "well_try_body row_letter col_part =
     (case py_int col_part of
        None \<Rightarrow> Inl (ValueError ''invalid literal for int() with base 10'')
      | Some col_num \<Rightarrow>
          if \<not> (1 \<le> col_num \<and> col_num \<le> 48)
          then Inl (ValueError (''Invalid column number (must be 1-48): '' @ py_str_int col_num))
          else Inr (row_letter # format_02d col_num))"

text \<open>
  \<open>AssayCondition.normalize_well_name\<close>. The handler \<open>except ValueError\<close> encloses the whole
  \<open>try\<close> body, so it replaces every ValueError raised there by the format error.
\<close>

definition normalize_well_name :: "string \<Rightarrow> error + string" where
  "normalize_well_name v0 =
     (let v = py_upper (py_strip v0) in
      if length v < 2 then Inl (ValueError (''Invalid well format: '' @ v))
      else
        let row_letter = hd v; col_part = tl v in
        if \<not> ((of_char (CHR ''A'') :: nat) \<le> of_char row_letter
               \<and> (of_char row_letter :: nat) \<le> of_char (CHR ''P''))
        then Inl (ValueError (''Invalid row letter (must be A-P): '' @ [row_letter]))
        else
          (case well_try_body row_letter col_part of
             Inl (ValueError _) \<Rightarrow> Inl (ValueError (''Invalid well format: '' @ v))
           | r \<Rightarrow> r))"

section \<open>Python values and dictionaries\<close>

text \<open>
  The values of type \<open>Any\<close> that travel through the model. A dictionary keeps its
  insertion order, so it is an association list; the keys of a Python dictionary are
  distinct, which \<open>wf_pyval\<close> says for every dictionary inside a value.
\<close>

datatype pyval =
    PNone
  | PBool bool
  | PInt int
  | PStr string
  | PList "pyval list"
  | PDict "(string \<times> pyval) list"

type_synonym pydict = "(string \<times> pyval) list"

fun wf_pyval :: "pyval \<Rightarrow> bool" where
  "wf_pyval (PList xs) = list_all wf_pyval xs"
| "wf_pyval (PDict kvs) = (distinct (map fst kvs) \<and> list_all (\<lambda>kv. wf_pyval (snd kv)) kvs)"
| "wf_pyval _ = True"

text \<open>\<open>d[k] = v\<close>: an existing key keeps its place and takes the new value, a new key goes last.\<close>

fun dict_set :: "'k \<Rightarrow> 'v \<Rightarrow> ('k \<times> 'v) list \<Rightarrow> ('k \<times> 'v) list" where
  "dict_set k v [] = [(k, v)]"
| "dict_set k v (kv # d) = (if fst kv = k then (k, v) # d else kv # dict_set k v d)"

text \<open>\<open>d.get(k, default)\<close>.\<close>

definition dict_get :: "('k \<times> 'v) list \<Rightarrow> 'k \<Rightarrow> 'v \<Rightarrow> 'v" where
  "dict_get d k dflt = (case map_of d k of None \<Rightarrow> dflt | Some v \<Rightarrow> v)"

text \<open>Sequencing of steps that may raise: the first error ends the computation.\<close>

definition bind_err :: "error + 'a \<Rightarrow> ('a \<Rightarrow> error + 'b) \<Rightarrow> error + 'b" where
  "bind_err r f = (case r of Inl e \<Rightarrow> Inl e | Inr x \<Rightarrow> f x)"

section \<open>models.py: the pydantic models\<close>

type_synonym groups_dict = "(string \<times> pydict) list"

record InvestigationInformation =
  inv_groups :: groups_dict

record StudyInformation =
  study_groups :: groups_dict

record AssayInformation =
  assay_groups :: groups_dict

record AssayCondition =
  plate :: string
  well :: string
  conditions :: pydict

record ReferenceSheet =
  name :: string
  data :: pydict

record MIHCSMEMetadata =
  investigation_information :: "InvestigationInformation option"
  study_information :: "StudyInformation option"
  assay_information :: "AssayInformation option"
  assay_conditions :: "AssayCondition list"
  reference_sheets :: "ReferenceSheet list"

text \<open>
  Validation of a field annotated \<open>Dict[str, Dict[str, Any]]\<close>: the input must be a
  dictionary whose values are dictionaries; each failing entry is reported under its key.
\<close>

definition groups_errors :: "string \<Rightarrow> pyval \<Rightarrow> (string \<times> string) list" where
  "groups_errors field v =
     (case v of
        PDict d \<Rightarrow>
          concat (map (\<lambda>kv. case snd kv of PDict _ \<Rightarrow> []
                            | _ \<Rightarrow> [(field @ ''.'' @ fst kv, ''Input should be a valid dictionary'')]) d)
      | _ \<Rightarrow> [(field, ''Input should be a valid dictionary'')])"

definition groups_of_pyval :: "pyval \<Rightarrow> groups_dict" where
  "groups_of_pyval v =
     (case v of
        PDict d \<Rightarrow> concat (map (\<lambda>kv. case snd kv of PDict g \<Rightarrow> [(fst kv, g)] | _ \<Rightarrow> []) d)
      | _ \<Rightarrow> [])"

definition validate_groups :: "pyval \<Rightarrow> error + groups_dict" where
  "validate_groups v =
     (case groups_errors ''groups'' v of
        [] \<Rightarrow> Inr (groups_of_pyval v)
      | errs \<Rightarrow> Inl (ValidationError errs))"

text \<open>The constructors \<open>InvestigationInformation(groups=v)\<close> and its two siblings.\<close>

definition new_InvestigationInformation :: "pyval \<Rightarrow> error + InvestigationInformation" where
  "new_InvestigationInformation v = bind_err (validate_groups v) (\<lambda>g. Inr \<lparr>inv_groups = g\<rparr>)"

definition new_StudyInformation :: "pyval \<Rightarrow> error + StudyInformation" where
  "new_StudyInformation v = bind_err (validate_groups v) (\<lambda>g. Inr \<lparr>study_groups = g\<rparr>)"

definition new_AssayInformation :: "pyval \<Rightarrow> error + AssayInformation" where
  "new_AssayInformation v = bind_err (validate_groups v) (\<lambda>g. Inr \<lparr>assay_groups = g\<rparr>)"

text \<open>Validation of a field annotated \<open>str\<close>: only a string passes.\<close>

definition str_errors :: "string \<Rightarrow> pyval \<Rightarrow> (string \<times> string) list" where
  "str_errors field v = (case v of PStr _ \<Rightarrow> [] | _ \<Rightarrow> [(field, ''Input should be a valid string'')])"

text \<open>
  The field \<open>well\<close>: a string, then the validator \<open>normalize_well_name\<close>, whose
  ValueError pydantic reports as \<open>Value error, <message>\<close>.
\<close>

definition well_errors :: "pyval \<Rightarrow> (string \<times> string) list" where
  "well_errors v =
     (case v of
        PStr w \<Rightarrow>
          (case normalize_well_name w of
             Inl (ValueError msg) \<Rightarrow> [(''well'', ''Value error, '' @ msg)]
           | _ \<Rightarrow> [])
      | _ \<Rightarrow> [(''well'', ''Input should be a valid string'')])"

text \<open>
  \<open>AssayCondition(plate=p, well=w, conditions=c)\<close>. The errors of all fields are
  collected into one ValidationError. Every caller in the sources passes a dictionary
  with string keys for \<open>conditions\<close>, which always validates.
\<close>

definition new_AssayCondition :: "pyval \<Rightarrow> pyval \<Rightarrow> pydict \<Rightarrow> error + AssayCondition" where
  "new_AssayCondition p w c =
     (case (str_errors ''plate'' p @ well_errors w, p, w) of
        ([], PStr ps, PStr ws) \<Rightarrow>
          (case normalize_well_name ws of
             Inr t \<Rightarrow> Inr \<lparr>plate = ps, well = t, conditions = c\<rparr>
           | Inl e \<Rightarrow> Inl e)
      | (errs, _, _) \<Rightarrow> Inl (ValidationError errs))"

text \<open>\<open>ReferenceSheet(name=n, data=d)\<close>: the class declares no validator for \<open>name\<close>.\<close>

definition new_ReferenceSheet :: "pyval \<Rightarrow> pyval \<Rightarrow> error + ReferenceSheet" where
  "new_ReferenceSheet n d =
     (case (n, d) of
        (PStr ns, PDict dd) \<Rightarrow> Inr \<lparr>name = ns, data = dd\<rparr>
      | _ \<Rightarrow> Inl (ValidationError (str_errors ''name'' n @
                 (case d of PDict _ \<Rightarrow> [] | _ \<Rightarrow> [(''data'', ''Input should be a valid dictionary'')]))))"

subsection \<open>to_omero_dict\<close>

definition groups_val :: "groups_dict \<Rightarrow> pyval" where
  "groups_val g = PDict (map (\<lambda>kv. (fst kv, PDict (snd kv))) g)"

text \<open>The dictionary display \<open>{"Plate": .., "Well": .., **condition.conditions}\<close>.\<close>

definition condition_dict :: "AssayCondition \<Rightarrow> pydict" where
  "condition_dict c =
     fold (\<lambda>kv d. dict_set (fst kv) (snd kv) d) (conditions c)
       [(''Plate'', PStr (plate c)), (''Well'', PStr (well c))]"

text \<open>
  An instance of a pydantic model is always true in a condition, so \<open>if self.x:\<close> on an
  optional model tests for \<open>None\<close>; on the list it tests for emptiness.
\<close>

definition to_omero_dict :: "MIHCSMEMetadata \<Rightarrow> pydict" where
  "to_omero_dict m =
     (let r0 = [];
          r1 = (case investigation_information m of
                  Some i \<Rightarrow> dict_set ''InvestigationInformation'' (groups_val (inv_groups i)) r0
                | None \<Rightarrow> r0);
          r2 = (case study_information m of
                  Some i \<Rightarrow> dict_set ''StudyInformation'' (groups_val (study_groups i)) r1
                | None \<Rightarrow> r1);
          r3 = (case assay_information m of
                  Some i \<Rightarrow> dict_set ''AssayInformation'' (groups_val (assay_groups i)) r2
                | None \<Rightarrow> r2);
          r4 = (if assay_conditions m \<noteq> []
                then dict_set ''AssayConditions''
                       (PList (map (\<lambda>c. PDict (condition_dict c)) (assay_conditions m))) r3
                else r3)
      in fold (\<lambda>ref_sheet r. dict_set (name ref_sheet) (PDict (data ref_sheet)) r)
           (reference_sheets m) r4)"

subsection \<open>from_omero_dict\<close>

definition not_plate_well :: "string \<Rightarrow> bool" where
  "not_plate_well k = (k \<noteq> ''Plate'' \<and> k \<noteq> ''Well'')"

text \<open>One pass of the loop over \<open>data["AssayConditions"]\<close>; \<open>.get\<close> exists on dictionaries only.\<close>

definition condition_of_dict :: "pyval \<Rightarrow> error + AssayCondition" where
  "condition_of_dict x =
     (case x of
        PDict cd \<Rightarrow>
          new_AssayCondition (dict_get cd ''Plate'' (PStr [])) (dict_get cd ''Well'' (PStr []))
            (filter (\<lambda>kv. not_plate_well (fst kv)) cd)
      | _ \<Rightarrow> Inl (AttributeError ''get''))"

fun conditions_of_list :: "pyval list \<Rightarrow> error + AssayCondition list" where
  "conditions_of_list [] = Inr []"
| "conditions_of_list (x # xs) =
     bind_err (condition_of_dict x) (\<lambda>c.
     bind_err (conditions_of_list xs) (\<lambda>cs. Inr (c # cs)))"

definition is_reference_item :: "string \<times> pyval \<Rightarrow> bool" where
  "is_reference_item kv = (py_startswith (fst kv) ''_'' \<and> (case snd kv of PDict _ \<Rightarrow> True | _ \<Rightarrow> False))"

fun reference_sheets_of :: "pydict \<Rightarrow> error + ReferenceSheet list" where
  "reference_sheets_of [] = Inr []"
| "reference_sheets_of (kv # d) =
     (if is_reference_item kv
      then bind_err (new_ReferenceSheet (PStr (fst kv)) (snd kv)) (\<lambda>r.
           bind_err (reference_sheets_of d) (\<lambda>rs. Inr (r # rs)))
      else reference_sheets_of d)"

definition from_omero_dict :: "pydict \<Rightarrow> error + MIHCSMEMetadata" where
  "from_omero_dict dat =
     bind_err (case map_of dat ''InvestigationInformation'' of
                 None \<Rightarrow> Inr None
               | Some v \<Rightarrow> bind_err (new_InvestigationInformation v) (\<lambda>i. Inr (Some i))) (\<lambda>investigation_info.
     bind_err (case map_of dat ''StudyInformation'' of
                 None \<Rightarrow> Inr None
               | Some v \<Rightarrow> bind_err (new_StudyInformation v) (\<lambda>i. Inr (Some i))) (\<lambda>study_info.
     bind_err (case map_of dat ''AssayInformation'' of
                 None \<Rightarrow> Inr None
               | Some v \<Rightarrow> bind_err (new_AssayInformation v) (\<lambda>i. Inr (Some i))) (\<lambda>assay_info.
     bind_err (case map_of dat ''AssayConditions'' of
                 Some (PList cs) \<Rightarrow> conditions_of_list cs
               | _ \<Rightarrow> Inr []) (\<lambda>conds.
     bind_err (reference_sheets_of dat) (\<lambda>refs.
     Inr \<lparr>investigation_information = investigation_info,
          study_information = study_info,
          assay_information = assay_info,
          assay_conditions = conds,
          reference_sheets = refs\<rparr>)))))"

section \<open>parser.py: reading a workbook\<close>

text \<open>
  A cell of a worksheet holds text or a whole number, or nothing (\<open>None\<close>); in a data
  frame \<open>None\<close> is the missing value NaN. A sheet is the list of its rows, a workbook the
  list of its named sheets. A text cell that pandas would type as a number is given as the
  number.
\<close>

datatype xl = XStr string | XInt int

type_synonym cell = "xl option"
type_synonym sheet = "cell list list"

definition py_of_xl :: "xl \<Rightarrow> pyval" where
  "py_of_xl x = (case x of XStr s \<Rightarrow> PStr s | XInt i \<Rightarrow> PInt i)"

text \<open>\<open>str(x)\<close> of a cell value, and \<open>.astype(str)\<close> of a cell, which turns NaN into \<open>nan\<close>.\<close>

definition str_of_xl :: "xl \<Rightarrow> string" where
  "str_of_xl x = (case x of XStr s \<Rightarrow> s | XInt i \<Rightarrow> py_str_int i)"

definition astype_str :: "cell \<Rightarrow> string" where
  "astype_str c = (case c of None \<Rightarrow> ''nan'' | Some x \<Rightarrow> str_of_xl x)"

text \<open>
  What pandas' reader hands to its parser (\<open>get_sheet_data\<close>): every row loses its
  trailing empty cells, the sheet loses its trailing empty rows, and the rows are filled up
  with empty cells to the width of the widest. A sheet without a filled cell gives no row.
\<close>

definition is_blank :: "cell \<Rightarrow> bool" where
  "is_blank c = (c = None \<or> c = Some (XStr []))"

definition trim_row :: "cell list \<Rightarrow> cell list" where
  "trim_row r = rev (dropWhile is_blank (rev r))"

definition sheet_width :: "cell list list \<Rightarrow> nat" where
  "sheet_width rows = foldr (\<lambda>r m. max (length r) m) rows 0"

definition pad_row :: "nat \<Rightarrow> cell list \<Rightarrow> cell list" where
  "pad_row w r = r @ replicate (w - length r) None"

definition get_sheet_data :: "sheet \<Rightarrow> sheet" where
  "get_sheet_data sh =
     (let rows = rev (dropWhile (\<lambda>r. r = []) (rev (map trim_row sh)))
      in map (pad_row (sheet_width rows)) rows)"

text \<open>
  The texts that pandas reads as a missing value by default (\<open>keep_default_na\<close>), in data
  cells of any column, also under \<open>dtype=str\<close>.
\<close>

definition na_strings :: "string list" where
  "na_strings =
     [''-1.#IND'', ''1.#QNAN'', ''1.#IND'', ''-1.#QNAN'', ''#N/A N/A'', ''#N/A'', ''N/A'', ''n/a'',
      ''NA'', ''<NA>'', ''#NA'', ''NULL'', ''null'', ''NaN'', ''-NaN'', ''nan'', ''-nan'', ''None'', []]"

definition na_cell :: "cell \<Rightarrow> cell" where
  "na_cell c = (case c of Some (XStr t) \<Rightarrow> if t \<in> set na_strings then None else c | _ \<Rightarrow> c)"

text \<open>
  \<open>pd.read_excel(xls, sheet_name=...)\<close> with its default \<open>header=0\<close>: the first row that
  the reader hands over becomes the column labels, the rows after it the data, indexed
  from 0. The code never reads the labels, so the frame keeps their number only. A sheet
  that hands over no row gives a frame without columns.
\<close>

record 'c dataframe =
  ncols :: nat
  df_rows :: "(nat \<times> 'c list) list"

definition read_excel :: "sheet \<Rightarrow> cell dataframe" where
  "read_excel sh =
     (case get_sheet_data sh of
        [] \<Rightarrow> \<lparr>ncols = 0, df_rows = []\<rparr>
      | labels # rs \<Rightarrow> \<lparr>ncols = length labels, df_rows = zip [0 ..< length rs] (map (map na_cell) rs)\<rparr>)"

text \<open>
  With \<open>dtype=str\<close> every cell that is not missing is text. The cells that hold a
  missing-value marker are missing here too: \<open>read_excel\<close> has emptied them.
\<close>

type_synonym text_cell = "string option"

definition as_text :: "cell list \<Rightarrow> text_cell list" where
  "as_text r = map (map_option str_of_xl) r"

definition read_excel_str :: "sheet \<Rightarrow> text_cell dataframe" where
  "read_excel_str sh =
     (let df = read_excel sh
      in \<lparr>ncols = ncols df, df_rows = map (\<lambda>ir. (fst ir, as_text (snd ir))) (df_rows df)\<rparr>)"

text \<open>The row filter \<open>df.iloc[:, 0].astype(str).str.startswith("#")\<close>, for one row.\<close>

definition is_comment_row :: "cell list \<Rightarrow> bool" where
  "is_comment_row r = (case r of [] \<Rightarrow> False | c # _ \<Rightarrow> py_startswith (astype_str c) ''#'')"

definition is_comment_text_row :: "text_cell list \<Rightarrow> bool" where
  "is_comment_text_row r =
     (case r of [] \<Rightarrow> False | c # _ \<Rightarrow> py_startswith (case c of None \<Rightarrow> ''nan'' | Some t \<Rightarrow> t) ''#'')"

text \<open>Reading the first column of a frame without columns is an IndexError.\<close>

definition drop_comment_rows :: "('c list \<Rightarrow> bool) \<Rightarrow> 'c dataframe \<Rightarrow> error + 'c dataframe" where
  "drop_comment_rows is_comment df =
     (if ncols df = 0 then Inl (IndexError ''single positional indexer is out-of-bounds'')
      else Inr (df\<lparr>df_rows := filter (\<lambda>ir. \<not> is_comment (snd ir)) (df_rows df)\<rparr>))"

subsection \<open>_parse_key_value_sheet\<close>

type_synonym sheet_data = "(xl \<times> (xl \<times> pyval) list) list"

text \<open>One pass of the loop over the rows of a tier sheet.\<close>

definition key_value_row :: "cell list \<Rightarrow> sheet_data \<Rightarrow> sheet_data" where
  "key_value_row row sd =
     (case row of
        [] \<Rightarrow> sd
      | grp # _ \<Rightarrow>
          (case grp of
             None \<Rightarrow> sd
           | Some g \<Rightarrow>
               if g = XStr ''Annotation_groups'' \<or> py_startswith (str_of_xl g) ''#'' then sd
               else if length row > 2 then
                 (case row ! 1 of
                    None \<Rightarrow> sd
                  | Some k \<Rightarrow>
                      let inner = (case map_of sd g of None \<Rightarrow> [] | Some d \<Rightarrow> d);
                          v = (case row ! 2 of None \<Rightarrow> PNone | Some x \<Rightarrow> py_of_xl x)
                      in dict_set g (dict_set k v inner) sd)
               else sd))"

definition parse_key_value_sheet :: "sheet \<Rightarrow> error + sheet_data" where
  "parse_key_value_sheet sh =
     bind_err (drop_comment_rows is_comment_row (read_excel sh)) (\<lambda>df.
     Inr (fold (\<lambda>ir sd. key_value_row (snd ir) sd) (df_rows df) []))"

text \<open>
  The parsed tier goes through the model's validation of \<open>Dict[str, Dict[str, Any]]\<close>:
  a group or a key that is not text fails it.
\<close>

definition xl_key_errors :: "string \<Rightarrow> xl \<Rightarrow> (string \<times> string) list" where
  "xl_key_errors loc k = (case k of XStr _ \<Rightarrow> [] | XInt _ \<Rightarrow> [(loc, ''Input should be a valid string'')])"

definition sheet_data_errors :: "sheet_data \<Rightarrow> (string \<times> string) list" where
  "sheet_data_errors sd =
     concat (map (\<lambda>gd. xl_key_errors (''groups.'' @ str_of_xl (fst gd)) (fst gd) @
                        concat (map (\<lambda>kv. xl_key_errors (''groups.'' @ str_of_xl (fst gd) @ ''.'' @ str_of_xl (fst kv)) (fst kv))
                                  (snd gd))) sd)"

definition groups_of_sheet_data :: "sheet_data \<Rightarrow> error + groups_dict" where
  "groups_of_sheet_data sd =
     (case sheet_data_errors sd of
        [] \<Rightarrow> Inr (map (\<lambda>gd. (str_of_xl (fst gd), map (\<lambda>kv. (str_of_xl (fst kv), snd kv)) (snd gd))) sd)
      | errs \<Rightarrow> Inl (ValidationError errs))"

subsection \<open>_parse_assay_conditions\<close>

text \<open>
  A data row after \<open>data_rows.columns = headers\<close> and after the columns with a NaN header
  are dropped: the cells paired with their labels.
\<close>

definition label_row :: "text_cell list \<Rightarrow> text_cell list \<Rightarrow> (string \<times> text_cell) list" where
  "label_row headers row =
     concat (map (\<lambda>hc. case fst hc of None \<Rightarrow> [] | Some h \<Rightarrow> [(h, snd hc)]) (zip headers row))"

text \<open>
  Reading a row by label gives the cell when one column bears the label, and a Series when
  several do; \<open>row.get\<close> gives \<open>None\<close> when no column does. The truth value of a Series
  with several entries is an error.
\<close>

datatype lookup = Scalar text_cell | Series

definition row_get :: "string \<Rightarrow> (string \<times> text_cell) list \<Rightarrow> lookup" where
  "row_get k row =
     (case filter (\<lambda>hc. fst hc = k) row of
        [] \<Rightarrow> Scalar None
      | [hc] \<Rightarrow> Scalar (snd hc)
      | _ \<Rightarrow> Series)"

definition ambiguous :: error where
  "ambiguous = ValueError ''The truth value of a Series is ambiguous''"

text \<open>The loop \<open>for col in data_rows.columns\<close> that collects the conditions of one row.\<close>

fun row_conditions :: "(string \<times> text_cell) list \<Rightarrow> string list \<Rightarrow> pydict \<Rightarrow> error + pydict" where
  "row_conditions row [] acc = Inr acc"
| "row_conditions row (col # cols) acc =
     (if \<not> not_plate_well col then row_conditions row cols acc
      else (case row_get col row of
              Series \<Rightarrow> Inl ambiguous
            | Scalar None \<Rightarrow> row_conditions row cols acc
            | Scalar (Some v) \<Rightarrow> row_conditions row cols (dict_set col (PStr v) acc)))"

text \<open>One pass of the loop over the data rows: \<open>None\<close> is \<open>continue\<close>.\<close>

definition condition_of_row :: "(string \<times> text_cell) list \<Rightarrow> error + AssayCondition option" where
  "condition_of_row row =
     (case row_get ''Plate'' row of
        Series \<Rightarrow> Inl ambiguous
      | Scalar None \<Rightarrow> Inr None
      | Scalar (Some p) \<Rightarrow>
          (case row_get ''Well'' row of
             Series \<Rightarrow> Inl ambiguous
           | Scalar None \<Rightarrow> Inr None
           | Scalar (Some w) \<Rightarrow>
               bind_err (row_conditions row (map fst row) []) (\<lambda>conds.
               bind_err (new_AssayCondition (PStr p) (PStr w) conds) (\<lambda>c.
               Inr (Some c)))))"

fun conditions_of_rows :: "(string \<times> text_cell) list list \<Rightarrow> error + AssayCondition list" where
  "conditions_of_rows [] = Inr []"
| "conditions_of_rows (row # rows) =
     bind_err (condition_of_row row) (\<lambda>oc.
     bind_err (conditions_of_rows rows) (\<lambda>cs.
     Inr (case oc of None \<Rightarrow> cs | Some c \<Rightarrow> c # cs)))"

definition parse_assay_conditions :: "string \<Rightarrow> sheet \<Rightarrow> error + AssayCondition list" where
  "parse_assay_conditions sheet_name sh =
     bind_err (drop_comment_rows is_comment_text_row (read_excel_str sh)) (\<lambda>df.
     case map snd (df_rows df) of
       [] \<Rightarrow> Inr []
     | headers # data_rows \<Rightarrow>
         if Some ''Plate'' \<notin> set headers \<or> Some ''Well'' \<notin> set headers
         then Inl (ValueError (''Missing required 'Plate' or 'Well' column in '' @ sheet_name))
         else conditions_of_rows (map (label_row headers) data_rows))"

subsection \<open>_parse_reference_sheet\<close>

text \<open>One pass of the loop over the data rows of a reference sheet.\<close>

definition reference_row :: "cell list \<Rightarrow> pydict \<Rightarrow> pydict" where
  "reference_row row ref_data =
     (if length row \<ge> 2 then
        (case row ! 0 of
           None \<Rightarrow> ref_data
         | Some k \<Rightarrow> dict_set (str_of_xl k) (case row ! 1 of None \<Rightarrow> PNone | Some x \<Rightarrow> py_of_xl x) ref_data)
      else ref_data)"

text \<open>
  Every exception inside this function is caught and gives the empty dictionary. The
  header row is found by its index label and then read by position.
\<close>

definition parse_reference_sheet :: "sheet \<Rightarrow> pydict" where
  "parse_reference_sheet sh =
     (case drop_comment_rows is_comment_row (read_excel sh) of
        Inl _ \<Rightarrow> []
      | Inr df0 \<Rightarrow>
          let rows = filter (\<lambda>ir. \<not> list_all (\<lambda>c. c = None) (snd ir)) (df_rows df0)
          in if rows = [] then []
             else
               (case map fst (filter (\<lambda>ir. \<not> list_all (\<lambda>c. c = None) (snd ir)) rows) of
                  [] \<Rightarrow> []
                | header_row_idx # _ \<Rightarrow>
                    if header_row_idx \<ge> length rows then []
                    else
                      let headers = snd (rows ! header_row_idx)
                      in if length headers < 2 then []
                         else fold (\<lambda>ir ref_data. reference_row (snd ir) ref_data)
                                (drop (header_row_idx + 1) rows) []))"

subsection \<open>parse_excel_to_model\<close>

definition SHEET_INVESTIGATION :: string where "SHEET_INVESTIGATION = ''InvestigationInformation''"
definition SHEET_STUDY :: string where "SHEET_STUDY = ''StudyInformation''"
definition SHEET_ASSAY :: string where "SHEET_ASSAY = ''AssayInformation''"
definition SHEET_CONDITIONS :: string where "SHEET_CONDITIONS = ''AssayConditions''"

definition required_sheets :: "string list" where
  "required_sheets = [SHEET_INVESTIGATION, SHEET_STUDY, SHEET_ASSAY, SHEET_CONDITIONS]"

text \<open>
  The file as the parser meets it: whether the path exists, the path and its suffix, and
  the sheets of the workbook in order, under distinct names.
\<close>

record excel_file =
  file_exists :: bool
  file_path :: string
  file_suffix :: string
  workbook :: "(string \<times> sheet) list"

definition lower_char :: "char \<Rightarrow> char" where
  "lower_char c =
     (let n = (of_char c :: nat)
      in if (65 \<le> n \<and> n \<le> 90) \<or> (192 \<le> n \<and> n \<le> 222 \<and> n \<noteq> 215) then char_of (n + 32) else c)"

definition py_lower :: "string \<Rightarrow> string" where
  "py_lower s = map lower_char s"

definition read_sheet :: "(string \<times> sheet) list \<Rightarrow> string \<Rightarrow> error + sheet" where
  "read_sheet wb n =
     (case map_of wb n of
        None \<Rightarrow> Inl (ValueError (''Worksheet named '' @ n @ '' not found''))
      | Some sh \<Rightarrow> Inr sh)"

text \<open>
  A tier sheet that yields groups becomes the tier's model. One that yields none stays
  the empty dictionary, which the root model validates into a tier without groups.
\<close>

definition tier_groups :: "(string \<times> sheet) list \<Rightarrow> string \<Rightarrow> error + groups_dict option" where
  "tier_groups wb n =
     (if n \<in> set (map fst wb) then
        bind_err (read_sheet wb n) (\<lambda>sh.
        bind_err (parse_key_value_sheet sh) (\<lambda>sd.
        if sd \<noteq> [] then bind_err (groups_of_sheet_data sd) (\<lambda>g. Inr (Some g))
        else Inr (Some [])))
      else Inr None)"

fun reference_sheets_of_workbook :: "(string \<times> sheet) list \<Rightarrow> string list \<Rightarrow> ReferenceSheet list" where
  "reference_sheets_of_workbook wb [] = []"
| "reference_sheets_of_workbook wb (sheet_name # ns) =
     (if py_startswith sheet_name ''_'' then
        (case map_of wb sheet_name of
           None \<Rightarrow> reference_sheets_of_workbook wb ns
         | Some sh \<Rightarrow>
             let ref_data = parse_reference_sheet sh
             in if ref_data \<noteq> []
                then \<lparr>name = sheet_name, data = ref_data\<rparr> # reference_sheets_of_workbook wb ns
                else reference_sheets_of_workbook wb ns)
      else reference_sheets_of_workbook wb ns)"

definition parse_excel_to_model :: "excel_file \<Rightarrow> error + MIHCSMEMetadata" where
  "parse_excel_to_model f =
     (if \<not> file_exists f then Inl (FileNotFoundError (''Excel file not found: '' @ file_path f))
      else if py_lower (file_suffix f) \<notin> set [''.xlsx'', ''.xls'']
      then Inl (ValueError (''File must be Excel format (.xlsx/.xls): '' @ file_path f))
      else
        let available_sheets = map fst (workbook f);
            missing_sheets = filter (\<lambda>s. s \<notin> set available_sheets) required_sheets
        in if missing_sheets \<noteq> []
           then Inl (ValueError (''Missing required sheets: '' @ join '', '' missing_sheets))
           else
             bind_err (tier_groups (workbook f) SHEET_INVESTIGATION) (\<lambda>investigation_info.
             bind_err (tier_groups (workbook f) SHEET_STUDY) (\<lambda>study_info.
             bind_err (tier_groups (workbook f) SHEET_ASSAY) (\<lambda>assay_info.
             bind_err (if SHEET_CONDITIONS \<in> set available_sheets
                       then bind_err (read_sheet (workbook f) SHEET_CONDITIONS)
                              (parse_assay_conditions SHEET_CONDITIONS)
                       else Inr []) (\<lambda>conds.
             Inr \<lparr>investigation_information = map_option (\<lambda>g. \<lparr>inv_groups = g\<rparr>) investigation_info,
                  study_information = map_option (\<lambda>g. \<lparr>study_groups = g\<rparr>) study_info,
                  assay_information = map_option (\<lambda>g. \<lparr>assay_groups = g\<rparr>) assay_info,
                  assay_conditions = conds,
                  reference_sheets = reference_sheets_of_workbook (workbook f) available_sheets\<rparr>)))))"

section \<open>omero_connection.py: deleting annotations\<close>

text \<open>
  The server holds, for every object (a type and an id), the annotations linked to it.
  An annotation has an id and an optional namespace; \<open>has_getNs\<close> is the test
  \<open>hasattr(ann, "getNs")\<close>.
\<close>

record annotation =
  ann_id :: int
  has_getNs :: bool
  ann_ns :: "string option"

type_synonym server = "((string \<times> int) \<times> annotation list) list"

definition getObject :: "server \<Rightarrow> string \<Rightarrow> int \<Rightarrow> annotation list option" where
  "getObject conn object_type object_id = map_of conn (object_type, object_id)"

text \<open>\<open>conn.deleteObjects("Annotation", ids, wait=True)\<close> removes the annotations from the server.\<close>

definition deleteObjects :: "server \<Rightarrow> int list \<Rightarrow> server" where
  "deleteObjects conn ids = map (\<lambda>oa. (fst oa, filter (\<lambda>a. ann_id a \<notin> set ids) (snd oa))) conn"

text \<open>The truth value of an optional string: \<open>None\<close> and the empty string are false.\<close>

definition truthy :: "string option \<Rightarrow> bool" where
  "truthy s = (case s of None \<Rightarrow> False | Some t \<Rightarrow> t \<noteq> [])"

text \<open>The condition under which the loop reaches \<open>continue\<close> and leaves the annotation alone.\<close>

definition skipped :: "string option \<Rightarrow> annotation \<Rightarrow> bool" where
  "skipped namespace ann =
     (truthy namespace \<and> has_getNs ann \<and>
      (case (ann_ns ann, namespace) of
         (Some ann_ns', Some ns) \<Rightarrow> ann_ns' \<noteq> [] \<and> \<not> py_startswith ann_ns' ns
       | _ \<Rightarrow> False))"

definition delete_annotations_from_object ::
    "server \<Rightarrow> string \<Rightarrow> int \<Rightarrow> string option \<Rightarrow> nat \<times> server" where
  "delete_annotations_from_object conn object_type object_id namespace =
     (case getObject conn object_type object_id of
        None \<Rightarrow> (0, conn)
      | Some anns \<Rightarrow>
          let annotations_to_delete = map ann_id (filter (\<lambda>a. \<not> skipped namespace a) anns)
          in (length annotations_to_delete,
              if annotations_to_delete \<noteq> [] then deleteObjects conn annotations_to_delete else conn))"

section \<open>The Grouping Engine\<close>

text \<open>
  Modelled from the spec: the downward mapping of the Grouping Engine
  (\<open>_organize_into_groups\<close> of \<open>mihcsme_py/uploader.py\<close>, which is not among the sources;
  only its tests are). The spec describes a fixed dictionary of known field names per
  group, checked in order, and a catch-all group \<open>Metadata\<close> for every other field. The
  table of known fields is not given in full, so it is a parameter: a list of group names,
  each with the test that recognises its field names.
\<close>

type_synonym taxonomy = "(string \<times> (string \<Rightarrow> bool)) list"

definition group_of_field :: "taxonomy \<Rightarrow> string \<Rightarrow> string" where
  "group_of_field tax field =
     (case filter (\<lambda>gp. snd gp field) tax of
        [] \<Rightarrow> ''Metadata''
      | gp # _ \<Rightarrow> fst gp)"

definition organize_step :: "taxonomy \<Rightarrow> string \<times> pyval \<Rightarrow> groups_dict \<Rightarrow> groups_dict" where
  "organize_step tax kv res =
     (let g = group_of_field tax (fst kv);
          inner = (case map_of res g of None \<Rightarrow> [] | Some d \<Rightarrow> d)
      in dict_set g (dict_set (fst kv) (snd kv) inner) res)"

definition organize_into_groups :: "taxonomy \<Rightarrow> pydict \<Rightarrow> groups_dict" where
  "organize_into_groups tax flat_dict = fold (organize_step tax) flat_dict []"

section \<open>Notions of the specification\<close>

text \<open>The strings matching \<open>^[A-Pa-p][0-9]{1,2}$\<close>, and the canonical form \<open>^[A-P][0-9]{2}$\<close>.\<close>

definition is_row_letter :: "char \<Rightarrow> bool" where
  "is_row_letter c = (let n = (of_char c :: nat) in (65 \<le> n \<and> n \<le> 80) \<or> (97 \<le> n \<and> n \<le> 112))"

definition matches_well_core :: "string \<Rightarrow> bool" where
  "matches_well_core s =
     (case s of
        [] \<Rightarrow> False
      | c # ds \<Rightarrow> is_row_letter c \<and> (length ds = 1 \<or> length ds = 2) \<and> list_all is_digit ds)"

text \<open>In a Python regular expression \<open>$\<close> also matches before a newline that ends the string.\<close>

definition matches_well_regex :: "string \<Rightarrow> bool" where
  "matches_well_regex s =
     (matches_well_core s \<or> (s \<noteq> [] \<and> last s = CHR 0x0A \<and> matches_well_core (butlast s)))"

definition is_canonical_well :: "string \<Rightarrow> bool" where
  "is_canonical_well t =
     (case t of
        [r, d1, d2] \<Rightarrow> (65::nat) \<le> of_char r \<and> (of_char r :: nat) \<le> 80 \<and> is_digit d1 \<and> is_digit d2
      | _ \<Rightarrow> False)"

text \<open>
  What holds of every condition and of every root model that \<open>from_omero_dict\<close> builds:
  the well is a fixed point of the validator, the condition fields are distinct and are
  neither \<open>Plate\<close> nor \<open>Well\<close>, and the reference sheets bear distinct names that
  start with an underscore.
\<close>

definition wf_condition :: "AssayCondition \<Rightarrow> bool" where
  "wf_condition ac = (normalize_well_name (well ac) = Inr (well ac)
     \<and> distinct (map fst (conditions ac))
     \<and> (\<forall>kv \<in> set (conditions ac). not_plate_well (fst kv)))"

definition wf_metadata :: "MIHCSMEMetadata \<Rightarrow> bool" where
  "wf_metadata m = (list_all wf_condition (assay_conditions m)
     \<and> distinct (map name (reference_sheets m))
     \<and> list_all (\<lambda>r. py_startswith (name r) ''_'') (reference_sheets m))"

definition reference_item :: "ReferenceSheet \<Rightarrow> string \<times> pyval" where
  "reference_item r = (name r, PDict (data r))"

definition head_items :: "MIHCSMEMetadata \<Rightarrow> pydict" where
  "head_items m =
     (case investigation_information m of
        Some i \<Rightarrow> [(''InvestigationInformation'', groups_val (inv_groups i))] | None \<Rightarrow> []) @
     (case study_information m of
        Some i \<Rightarrow> [(''StudyInformation'', groups_val (study_groups i))] | None \<Rightarrow> []) @
     (case assay_information m of
        Some i \<Rightarrow> [(''AssayInformation'', groups_val (assay_groups i))] | None \<Rightarrow> []) @
     (if assay_conditions m \<noteq> []
      then [(''AssayConditions'', PList (map (\<lambda>c. PDict (condition_dict c)) (assay_conditions m)))]
      else [])"

text \<open>The four keys of the flat dictionary that \<open>to_omero_dict\<close> writes itself.\<close>

definition reserved_keys :: "string list" where
  "reserved_keys = [''InvestigationInformation'', ''StudyInformation'', ''AssayInformation'', ''AssayConditions'']"

text \<open>A root model with all three tiers, two conditions and a reference sheet.\<close>

definition round_trip_model :: MIHCSMEMetadata where
  "round_trip_model =
     \<lparr>investigation_information = Some \<lparr>inv_groups = [(''Investigation'', [(''ID'', PStr ''INV-001'')])]\<rparr>,
      study_information = Some \<lparr>study_groups = [(''Study'', [(''Title'', PStr ''Test Study''), (''Replicates'', PInt 3)])]\<rparr>,
      assay_information = Some \<lparr>assay_groups = [(''Assay'', [(''Type'', PStr ''Imaging'')])]\<rparr>,
      assay_conditions =
        [\<lparr>plate = ''P1'', well = ''A01'', conditions = [(''Drug'', PStr ''Control'')]\<rparr>,
         \<lparr>plate = ''P1'', well = ''B12'', conditions = []\<rparr>],
      reference_sheets = [\<lparr>name = ''_Organisms'', data = [(''Human'', PStr ''Homo sapiens'')]\<rparr>]\<rparr>"

text \<open>
  A small workbook: each sheet begins with a title row; the tiers have one entry each, the
  conditions sheet one well, and there is one reference sheet.
\<close>

definition example_workbook :: "(string \<times> sheet) list" where
  "example_workbook =
     [(''InvestigationInformation'',
         [[Some (XStr ''# Investigation''), None, None],
          [Some (XStr ''Annotation_groups''), Some (XStr ''Key''), Some (XStr ''Value'')],
          [Some (XStr ''DataOwner''), Some (XStr ''First Name''), Some (XStr ''Jane'')]]),
      (''StudyInformation'',
         [[Some (XStr ''# Study''), None, None],
          [Some (XStr ''Study''), Some (XStr ''Study Title''), Some (XStr ''Test study'')]]),
      (''AssayInformation'',
         [[Some (XStr ''# Assay''), None, None],
          [Some (XStr ''Assay''), Some (XStr ''Assay Title''), Some (XStr ''Test assay'')]]),
      (''AssayConditions'',
         [[Some (XStr ''# Conditions''), None, None],
          [Some (XStr ''Plate''), Some (XStr ''Well''), Some (XStr ''Compound'')],
          [Some (XStr ''PlateA''), Some (XStr ''a1''), Some (XStr ''DMSO'')]]),
      (''_Organisms'',
         [[Some (XStr ''# Organisms''), None],
          [Some (XStr ''Name''), Some (XStr ''Latin'')],
          [Some (XStr ''Human''), Some (XStr ''Homo sapiens'')]])]"

definition example_model :: MIHCSMEMetadata where
  "example_model =
     \<lparr>investigation_information = Some \<lparr>inv_groups = [(''DataOwner'', [(''First Name'', PStr ''Jane'')])]\<rparr>,
      study_information = Some \<lparr>study_groups = [(''Study'', [(''Study Title'', PStr ''Test study'')])]\<rparr>,
      assay_information = Some \<lparr>assay_groups = [(''Assay'', [(''Assay Title'', PStr ''Test assay'')])]\<rparr>,
      assay_conditions = [\<lparr>plate = ''PlateA'', well = ''A01'', conditions = [(''Compound'', PStr ''DMSO'')]\<rparr>],
      reference_sheets = [\<lparr>name = ''_Organisms'', data = [(''Human'', PStr ''Homo sapiens'')]\<rparr>]\<rparr>"

text \<open>
  The value a grouped dictionary holds for a field in a group, and the distinctness of the
  keys of a grouped dictionary and of each of its groups.
\<close>

definition lookup2 :: "groups_dict \<Rightarrow> string \<Rightarrow> string \<Rightarrow> pyval option" where
  "lookup2 res g k = (case map_of res g of None \<Rightarrow> None | Some fs \<Rightarrow> map_of fs k)"

definition wf_groups :: "groups_dict \<Rightarrow> bool" where
  "wf_groups res = (distinct (map fst res) \<and> list_all (\<lambda>gf. distinct (map fst (snd gf))) res)"

text \<open>
  Modelled from the spec: the part of the table of known fields that the spec spells out
  (the groups \<open>DataOwner\<close> and \<open>InvestigationInfo\<close>, without the pattern for ORCID
  fields); the table itself is in \<open>mihcsme_py/uploader.py\<close>, which is not among the
  sources.
\<close>

definition spec_taxonomy :: taxonomy where
  "spec_taxonomy =
     [(''DataOwner'', \<lambda>f. f \<in> set [''First Name'', ''Last Name'', ''E-Mail Address'']),
      (''InvestigationInfo'', \<lambda>f. f \<in> set [''Project ID'', ''Investigation Title''])]"









text \<open>
  A row of the sheet as the frame of text holds it: the cells that pandas reads as missing
  are empty, the others are text.
\<close>

definition frame_row :: "cell list \<Rightarrow> text_cell list" where
  "frame_row r = as_text (map na_cell r)"


section \<open>Properties of the well validator\<close>

declare str_nat.simps [simp del]

lemma of_char_digit_char: "d < 10 \<Longrightarrow> (of_char (digit_char d) :: nat) = 48 + d"
  by (simp add: digit_char_def)

lemma is_digit_digit_char: "d < 10 \<Longrightarrow> is_digit (digit_char d)"
  by (simp add: is_digit_def of_char_digit_char)

lemma digit_val_digit_char: "d < 10 \<Longrightarrow> digit_val (digit_char d) = int d"
  by (simp add: digit_val_def of_char_digit_char)

lemma not_space_digit: "is_digit c \<Longrightarrow> \<not> py_isspace c"
  by (auto simp: is_digit_def py_isspace_def Let_def)

lemma upper_digit: "is_digit c \<Longrightarrow> upper_chars c = [c]"
  by (auto simp: is_digit_def upper_chars_def upper_char_def Let_def)

lemma upper_row_letter: "is_row_letter c \<Longrightarrow> upper_chars c = [upper_char c]"
  by (auto simp: is_row_letter_def upper_chars_def Let_def)

lemma digit_not_sign: "is_digit c \<Longrightarrow> c \<noteq> CHR ''+'' \<and> c \<noteq> CHR ''-'' \<and> c \<noteq> CHR ''_''"
  by (auto simp: is_digit_def Let_def)

lemma char_0: "char_of (48::nat) = CHR ''0''"
  by code_simp

lemma format_02d_two: "0 \<le> i \<Longrightarrow> i < 100 \<Longrightarrow>
  format_02d i = [digit_char (nat i div 10), digit_char (nat i mod 10)]"
proof -
  assume a: "0 \<le> i" "i < 100"
  show ?thesis
  proof (cases "i < 10")
    case True
    with a have "nat i < 10" "nat i div 10 = 0" "nat i mod 10 = nat i" by simp_all
    with a True show ?thesis
      by (simp add: format_02d_def py_str_int_def str_nat.simps [of "nat i"] digit_char_def char_0)
  next
    case False
    with a have "nat i div 10 < 10" by simp
    with a False show ?thesis
      by (simp add: format_02d_def py_str_int_def str_nat.simps [of "nat i"] str_nat.simps [of "nat i div 10"])
  qed
qed

lemma py_strip_clean: "s \<noteq> [] \<Longrightarrow> \<not> py_isspace (hd s) \<Longrightarrow> \<not> py_isspace (last s) \<Longrightarrow> py_strip s = s"
proof -
  assume a: "s \<noteq> []" "\<not> py_isspace (hd s)" "\<not> py_isspace (last s)"
  have dw: "\<And>xs. xs \<noteq> [] \<Longrightarrow> \<not> py_isspace (hd xs) \<Longrightarrow> dropWhile py_isspace xs = xs"
    by (case_tac xs) auto
  from a have "dropWhile py_isspace s = s" by (simp add: dw)
  moreover from a have "dropWhile py_isspace (rev s) = rev s" by (simp add: dw hd_rev)
  ultimately show ?thesis by (simp add: py_strip_def)
qed

lemma py_int_two_digits: "is_digit a \<Longrightarrow> is_digit b \<Longrightarrow> py_int [a, b] = Some (10 * digit_val a + digit_val b)"
  using py_strip_clean [of "[a, b]"]
  by (simp add: py_int_def not_space_digit digit_not_sign unsigned_int_def digits_value_def)

lemma py_int_one_digit: "is_digit a \<Longrightarrow> py_int [a] = Some (digit_val a)"
  using py_strip_clean [of "[a]"]
  by (simp add: py_int_def not_space_digit digit_not_sign unsigned_int_def digits_value_def)

lemma row_letter_upper: "is_row_letter c \<Longrightarrow> (65::nat) \<le> of_char (upper_char c) \<and> (of_char (upper_char c) :: nat) \<le> 80"
  by (auto simp: is_row_letter_def upper_char_def Let_def)

lemma row_letter_not_space: "is_row_letter c \<Longrightarrow> \<not> py_isspace c"
  by (auto simp: is_row_letter_def py_isspace_def Let_def)

lemma upper_row_fixed: "(65::nat) \<le> of_char r \<Longrightarrow> (of_char r :: nat) \<le> 80 \<Longrightarrow> upper_chars r = [r]"
  by (auto simp: upper_chars_def upper_char_def Let_def)

lemma row_not_space: "(65::nat) \<le> of_char r \<Longrightarrow> (of_char r :: nat) \<le> 80 \<Longrightarrow> \<not> py_isspace r"
  by (auto simp: py_isspace_def Let_def)

lemma normalize_canonical:
  assumes r: "(65::nat) \<le> of_char r" "(of_char r :: nat) \<le> 80" and n: "1 \<le> n" "n \<le> 48"
  shows "normalize_well_name (r # format_02d n) = Inr (r # format_02d n)"
proof -
  let ?a = "digit_char (nat n div 10)" and ?b = "digit_char (nat n mod 10)"
  from n have f: "format_02d n = [?a, ?b]" by (simp add: format_02d_two)
  from n have da: "is_digit ?a" and db: "is_digit ?b" by (simp_all add: is_digit_digit_char)
  have strip: "py_strip [r, ?a, ?b] = [r, ?a, ?b]"
    using py_strip_clean [of "[r, ?a, ?b]"] r db by (simp add: row_not_space not_space_digit)
  have up: "py_upper [r, ?a, ?b] = [r, ?a, ?b]"
    using r da db by (simp add: py_upper_def upper_row_fixed upper_digit)
  have "10 * int (nat n div 10) + int (nat n mod 10) = n" using n
    by (simp add: zdiv_int zmod_int)
  with n have val: "10 * digit_val ?a + digit_val ?b = n"
    by (simp add: digit_val_digit_char)
  have "well_try_body r [?a, ?b] = Inr (r # format_02d n)"
    using n by (simp add: well_try_body_def py_int_two_digits da db val)
  then show ?thesis
    using r by (simp add: normalize_well_name_def f strip up)
qed

lemma normalize_matching:
  assumes m: "matches_well_core s" and n: "1 \<le> digits_value (tl s)" "digits_value (tl s) \<le> 48"
  shows "normalize_well_name s = Inr (upper_char (hd s) # format_02d (digits_value (tl s)))"
proof -
  from m obtain c ds where s: "s = c # ds" and c: "is_row_letter c"
    and len: "length ds = 1 \<or> length ds = 2" and dig: "list_all is_digit ds"
    by (auto simp: matches_well_core_def split: list.splits)
  from len dig have last_d: "is_digit (last (c # ds))" and ne: "ds \<noteq> []"
    by (auto simp: list_all_iff)
  have strip: "py_strip (c # ds) = c # ds"
    using py_strip_clean [of "c # ds"] c last_d by (simp add: row_letter_not_space not_space_digit)
  from dig have "concat (map upper_chars ds) = ds"
    by (induction ds) (simp_all add: upper_digit)
  with c have up: "py_upper (c # ds) = upper_char c # ds"
    by (simp add: py_upper_def upper_row_letter)
  have pi: "py_int ds = Some (digits_value ds)"
  proof (cases "length ds = 1")
    case True
    then obtain a where "ds = [a]" by (cases ds) auto
    with dig show ?thesis by (simp add: py_int_one_digit digits_value_def)
  next
    case False
    with len have "length ds = 2" by simp
    then obtain a b where "ds = [a, b]" by (cases ds; cases "tl ds") auto
    with dig show ?thesis by (simp add: py_int_two_digits digits_value_def)
  qed
  have "well_try_body (upper_char c) ds = Inr (upper_char c # format_02d (digits_value ds))"
    using n s by (simp add: well_try_body_def pi)
  moreover from ne have "\<not> length (upper_char c # ds) < 2" by (cases ds) auto
  ultimately show ?thesis
    using row_letter_upper [OF c]
    by (simp add: normalize_well_name_def s strip up)
qed

lemma py_strip_newline:
  assumes "t \<noteq> []" and "\<not> py_isspace (hd t)" and "\<not> py_isspace (last t)"
  shows "py_strip (t @ [CHR 0x0A]) = t"
proof -
  have nl: "py_isspace (CHR 0x0A)" by (simp add: py_isspace_def)
  from assms have 1: "dropWhile py_isspace (t @ [CHR 0x0A]) = t @ [CHR 0x0A]"
    by (cases t) auto
  from assms have "dropWhile py_isspace (rev t) = rev t"
    by (cases "rev t") (auto simp: last_rev [symmetric] hd_rev)
  with nl have 2: "dropWhile py_isspace (rev (t @ [CHR 0x0A])) = rev t" by simp
  show ?thesis unfolding py_strip_def 1 2 by simp
qed

lemma normalize_trailing_newline:
  assumes "t \<noteq> []" and "\<not> py_isspace (hd t)" and "\<not> py_isspace (last t)"
  shows "normalize_well_name (t @ [CHR 0x0A]) = normalize_well_name t"
  unfolding normalize_well_name_def py_strip_newline [OF assms] py_strip_clean [OF assms] ..

lemma core_clean:
  assumes "matches_well_core t"
  shows "t \<noteq> [] \<and> \<not> py_isspace (hd t) \<and> \<not> py_isspace (last t)"
proof -
  from assms obtain c ds where t: "t = c # ds" and c: "is_row_letter c"
    and len: "length ds = 1 \<or> length ds = 2" and dig: "list_all is_digit ds"
    by (auto simp: matches_well_core_def split: list.splits)
  from len dig have "is_digit (last (c # ds))" by (auto simp: list_all_iff)
  with t c show ?thesis by (simp add: row_letter_not_space not_space_digit)
qed

lemma regex_to_core:
  assumes "matches_well_regex s"
  obtains t where "matches_well_core t" and "normalize_well_name s = normalize_well_name t"
    and "hd t = hd s" and "digits_value (tl t) = digits_value (tl s)"
proof (cases "matches_well_core s")
  case True
  then show ?thesis using that by blast
next
  case False
  with assms have ne: "s \<noteq> []" and l: "last s = CHR 0x0A" and core: "matches_well_core (butlast s)"
    by (auto simp: matches_well_regex_def)
  let ?t = "butlast s"
  from ne l have s: "s = ?t @ [CHR 0x0A]" by (metis append_butlast_last_id)
  from core_clean [OF core] have cl: "?t \<noteq> []" "\<not> py_isspace (hd ?t)" "\<not> py_isspace (last ?t)" by simp_all
  have 1: "normalize_well_name s = normalize_well_name ?t"
    using normalize_trailing_newline [OF cl] s by simp
  have 2: "hd ?t = hd s" using cl(1) s by (metis hd_append2)
  have "\<not> is_digit (CHR 0x0A)" by (simp add: is_digit_def)
  moreover have "tl s = tl ?t @ [CHR 0x0A]" using cl(1) s by (metis tl_append2)
  ultimately have 3: "digits_value (tl ?t) = digits_value (tl s)" by (simp add: digits_value_def)
  from core 1 2 3 show ?thesis using that by blast
qed

text \<open>
  Claim C7. For every string matching \<open>^[A-Pa-p][0-9]{1,2}$\<close> whose numeric part lies in
  1..48, normalization succeeds, normalizing the result again gives the same string, and
  that string has the canonical form of one letter A-P and two digits. The label \<open>a1\<close>
  normalizes to \<open>A01\<close>.
\<close>

theorem well_normalization_idempotent:
  assumes "matches_well_regex s" and "1 \<le> digits_value (tl s)" and "digits_value (tl s) \<le> 48"
  shows "(\<exists>t. normalize_well_name s = Inr t \<and> normalize_well_name t = Inr t \<and> is_canonical_well t)
         \<and> normalize_well_name ''a1'' = Inr ''A01''"
proof -
  from regex_to_core [OF assms(1)] obtain u where core: "matches_well_core u"
    and same: "normalize_well_name s = normalize_well_name u"
    and h: "hd u = hd s" and dv: "digits_value (tl u) = digits_value (tl s)" by blast
  let ?n = "digits_value (tl u)"
  let ?t = "upper_char (hd u) # format_02d ?n"
  from assms(2,3) dv have n: "1 \<le> ?n" "?n \<le> 48" by simp_all
  from core have c: "is_row_letter (hd u)"
    by (auto simp: matches_well_core_def split: list.splits)
  have 1: "normalize_well_name s = Inr ?t" unfolding same using core n by (rule normalize_matching)
  have 2: "normalize_well_name ?t = Inr ?t"
    using row_letter_upper [OF c] n by (simp add: normalize_canonical)
  have 3: "is_canonical_well ?t"
    using row_letter_upper [OF c] n
    by (simp add: is_canonical_well_def format_02d_two is_digit_digit_char)
  have 4: "normalize_well_name ''a1'' = Inr ''A01''" by code_simp
  from 1 2 3 4 show ?thesis by blast
qed

theorem well_normalization_idempotent_witness:
  "matches_well_regex ''p48'' \<and> 1 \<le> digits_value (tl ''p48'') \<and> digits_value (tl ''p48'') \<le> 48
   \<and> (\<exists>t. normalize_well_name ''p48'' = Inr t \<and> normalize_well_name t = Inr t \<and> is_canonical_well t)
   \<and> normalize_well_name ''a1'' = Inr ''A01''"
proof -
  have h1: "matches_well_regex ''p48''" by code_simp
  have h2: "1 \<le> digits_value (tl ''p48'')" by code_simp
  have h3: "digits_value (tl ''p48'') \<le> 48" by code_simp
  from well_normalization_idempotent [OF h1 h2 h3] h1 h2 h3 show ?thesis by blast
qed

text \<open>
  Claim C2. The claim asks for a column-specific error when the column number lies
  outside 1..48. The validator raises that error inside the \<open>try\<close> block whose handler
  catches ValueError, so what leaves the function for \<open>A50\<close> is the format error.
\<close>

theorem well_column_error_is_format_error:
  "normalize_well_name ''A50'' = Inl (ValueError ''Invalid well format: A50'')
   \<and> well_try_body (CHR ''A'') ''50'' = Inl (ValueError ''Invalid column number (must be 1-48): 50'')"
  by code_simp

section \<open>Properties of the dictionary conversions\<close>

lemma dict_set_new: "k \<notin> fst ` set d \<Longrightarrow> dict_set k v d = d @ [(k, v)]"
  by (induction d) auto

lemma fold_dict_set_append:
  "distinct (map fst xs) \<Longrightarrow> fst ` set xs \<inter> fst ` set acc = {} \<Longrightarrow>
   fold (\<lambda>kv d. dict_set (fst kv) (snd kv) d) xs acc = acc @ xs"
proof (induction xs arbitrary: acc)
  case Nil
  then show ?case by simp
next
  case (Cons x xs)
  from Cons.prems have "fst x \<notin> fst ` set acc" by auto
  then have step: "dict_set (fst x) (snd x) acc = acc @ [x]" by (simp add: dict_set_new)
  from Cons.prems have "fst ` set xs \<inter> fst ` set (acc @ [x]) = {}" by auto
  with Cons.IH [of "acc @ [x]"] Cons.prems step show ?case by simp
qed

lemma well_try_body_Inr:
  "well_try_body r col = Inr t \<Longrightarrow> \<exists>n. 1 \<le> n \<and> n \<le> 48 \<and> t = r # format_02d n"
  by (auto simp: well_try_body_def split: option.splits if_splits)

lemma normalize_Inr_shape:
  assumes "normalize_well_name v = Inr t"
  shows "\<exists>r n. (65::nat) \<le> of_char r \<and> (of_char r :: nat) \<le> 80 \<and> 1 \<le> n \<and> n \<le> 48 \<and> t = r # format_02d n"
proof -
  let ?v = "py_upper (py_strip v)"
  from assms have r: "(65::nat) \<le> of_char (hd ?v)" "(of_char (hd ?v) :: nat) \<le> 80"
    and b: "well_try_body (hd ?v) (tl ?v) = Inr t"
    by (auto simp: normalize_well_name_def Let_def split: if_splits sum.splits error.splits)
  from well_try_body_Inr [OF b] r show ?thesis by blast
qed

lemma normalize_fixed_point: "normalize_well_name v = Inr t \<Longrightarrow> normalize_well_name t = Inr t"
  using normalize_Inr_shape [of v t] normalize_canonical by blast

lemma normalize_error_is_ValueError: "normalize_well_name v = Inl e \<Longrightarrow> \<exists>msg. e = ValueError msg"
  by (auto simp: normalize_well_name_def well_try_body_def Let_def split: if_splits sum.splits error.splits option.splits)


lemma new_AssayCondition_Inr:
  assumes "new_AssayCondition p w c = Inr ac"
  shows "\<exists>ps ws. p = PStr ps \<and> w = PStr ws \<and> normalize_well_name ws = Inr (well ac)
           \<and> plate ac = ps \<and> conditions ac = c"
  using assms
  by (auto simp: new_AssayCondition_def str_errors_def well_errors_def
      split: pyval.splits list.splits sum.splits error.splits if_splits)

lemma new_AssayCondition_canonical:
  assumes "normalize_well_name t = Inr t"
  shows "new_AssayCondition (PStr p) (PStr t) c = Inr \<lparr>plate = p, well = t, conditions = c\<rparr>"
  using assms by (simp add: new_AssayCondition_def str_errors_def well_errors_def)

lemma filter_not_plate_well_keys:
  "fst ` set (filter (\<lambda>kv. not_plate_well (fst kv)) cd) \<inter> fst ` set [(''Plate'', a), (''Well'', b)] = {}"
  by (auto simp: not_plate_well_def)

lemma condition_dict_shape:
  assumes "distinct (map fst (conditions ac))"
    and "\<forall>kv \<in> set (conditions ac). not_plate_well (fst kv)"
  shows "condition_dict ac = [(''Plate'', PStr (plate ac)), (''Well'', PStr (well ac))] @ conditions ac"
proof -
  from assms(2) have "fst ` set (conditions ac) \<inter> fst ` set [(''Plate'', PStr (plate ac)), (''Well'', PStr (well ac))] = {}"
    by (auto simp: not_plate_well_def)
  with assms(1) show ?thesis
    unfolding condition_dict_def by (rule fold_dict_set_append)
qed

lemma not_plate_well_names: "\<not> not_plate_well ''Plate''" "\<not> not_plate_well ''Well''"
  by (simp_all add: not_plate_well_def)

lemma condition_round_trip:
  assumes "normalize_well_name (well ac) = Inr (well ac)"
    and "distinct (map fst (conditions ac))"
    and "\<forall>kv \<in> set (conditions ac). not_plate_well (fst kv)"
  shows "condition_of_dict (PDict (condition_dict ac)) = Inr ac"
proof -
  have f: "filter (\<lambda>kv. not_plate_well (fst kv)) (conditions ac) = conditions ac"
    using assms(3) by (simp add: filter_id_conv)
  have "condition_of_dict (PDict (condition_dict ac))
        = new_AssayCondition (PStr (plate ac)) (PStr (well ac)) (conditions ac)"
    by (simp add: condition_of_dict_def condition_dict_shape [OF assms(2,3)] dict_get_def
        not_plate_well_names f)
  also have "\<dots> = Inr \<lparr>plate = plate ac, well = well ac, conditions = conditions ac\<rparr>"
    using assms(1) by (rule new_AssayCondition_canonical)
  finally show ?thesis by simp
qed

lemma condition_of_dict_wf:
  assumes "condition_of_dict x = Inr ac" and "wf_pyval x"
  shows "wf_condition ac"
proof -
  from assms(1) obtain cd where x: "x = PDict cd"
    by (auto simp: condition_of_dict_def split: pyval.splits)
  with assms(1) have n: "new_AssayCondition (dict_get cd ''Plate'' (PStr [])) (dict_get cd ''Well'' (PStr []))
            (filter (\<lambda>kv. not_plate_well (fst kv)) cd) = Inr ac"
    by (simp add: condition_of_dict_def)
  from new_AssayCondition_Inr [OF n] obtain ws where
    w: "normalize_well_name ws = Inr (well ac)" and c: "conditions ac = filter (\<lambda>kv. not_plate_well (fst kv)) cd"
    by blast
  from assms(2) x have "distinct (map fst cd)" by simp
  then have "distinct (map fst (filter (\<lambda>kv. not_plate_well (fst kv)) cd))"
    by (simp add: distinct_map_filter)
  with w c show ?thesis
    by (simp add: wf_condition_def normalize_fixed_point)
qed

lemma conditions_of_list_wf:
  "conditions_of_list cs = Inr acs \<Longrightarrow> list_all wf_pyval cs \<Longrightarrow> list_all wf_condition acs"
proof (induction cs arbitrary: acs)
  case Nil
  then show ?case by simp
next
  case (Cons x xs)
  from Cons.prems(1) obtain c rest where c: "condition_of_dict x = Inr c"
    and r: "conditions_of_list xs = Inr rest" and a: "acs = c # rest"
    by (auto simp: bind_err_def split: sum.splits)
  from Cons.prems(2) c have "wf_condition c" by (simp add: condition_of_dict_wf)
  moreover from Cons.IH [OF r] Cons.prems(2) have "list_all wf_condition rest" by simp
  ultimately show ?case using a by simp
qed

lemma conditions_round_trip:
  "list_all wf_condition acs \<Longrightarrow>
   conditions_of_list (map (\<lambda>c. PDict (condition_dict c)) acs) = Inr acs"
  by (induction acs) (simp_all add: bind_err_def condition_round_trip wf_condition_def)


lemma groups_errors_groups_val: "groups_errors f (groups_val g) = []"
  by (induction g) (simp_all add: groups_errors_def groups_val_def)

lemma groups_of_groups_val: "groups_of_pyval (groups_val g) = g"
  by (induction g) (simp_all add: groups_of_pyval_def groups_val_def)

lemma validate_groups_val: "validate_groups (groups_val g) = Inr g"
  by (simp add: validate_groups_def groups_errors_groups_val groups_of_groups_val)

lemma head_items_keys:
  "fst ` set (head_items m) \<subseteq> {''InvestigationInformation'', ''StudyInformation'', ''AssayInformation'', ''AssayConditions''}"
  by (auto simp: head_items_def split: option.splits if_splits)

lemma reserved_not_underscore:
  "k \<in> {''InvestigationInformation'', ''StudyInformation'', ''AssayInformation'', ''AssayConditions''}
   \<Longrightarrow> \<not> py_startswith k ''_''"
  by (auto simp: py_startswith_def)

lemma head_then_conditions:
  "(let r0 = [];
        r1 = (case investigation_information m of
                  Some i \<Rightarrow> dict_set ''InvestigationInformation'' (groups_val (inv_groups i)) r0
                | None \<Rightarrow> r0);
        r2 = (case study_information m of
                  Some i \<Rightarrow> dict_set ''StudyInformation'' (groups_val (study_groups i)) r1
                | None \<Rightarrow> r1);
        r3 = (case assay_information m of
                  Some i \<Rightarrow> dict_set ''AssayInformation'' (groups_val (assay_groups i)) r2
                | None \<Rightarrow> r2)
    in (if assay_conditions m \<noteq> []
                then dict_set ''AssayConditions''
                       (PList (map (\<lambda>c. PDict (condition_dict c)) (assay_conditions m))) r3
                else r3)) = head_items m"
  by (simp add: head_items_def split: option.splits)

lemma to_omero_dict_fold:
  "to_omero_dict m = fold (\<lambda>kv d. dict_set (fst kv) (snd kv) d) (map reference_item (reference_sheets m)) (head_items m)"
proof -
  have "to_omero_dict m = fold (\<lambda>ref_sheet r. dict_set (name ref_sheet) (PDict (data ref_sheet)) r)
           (reference_sheets m) (head_items m)"
    unfolding to_omero_dict_def using head_then_conditions [of m] by (simp add: Let_def)
  then show ?thesis by (simp add: fold_map comp_def reference_item_def)
qed

lemma to_omero_dict_shape:
  assumes "wf_metadata m"
  shows "to_omero_dict m = head_items m @ map reference_item (reference_sheets m)"
proof -
  from assms have d: "distinct (map fst (map reference_item (reference_sheets m)))"
    by (simp add: wf_metadata_def reference_item_def comp_def)
  have "fst ` set (map reference_item (reference_sheets m)) \<inter> fst ` set (head_items m) = {}"
  proof (rule ccontr)
    assume "\<not> ?thesis"
    then obtain k where k1: "k \<in> fst ` set (map reference_item (reference_sheets m))"
      and k2: "k \<in> fst ` set (head_items m)" by auto
    from k1 assms have "py_startswith k ''_''"
      by (auto simp: wf_metadata_def reference_item_def list_all_iff)
    moreover from k2 head_items_keys [of m] have "\<not> py_startswith k ''_''"
      using reserved_not_underscore by blast
    ultimately show False by simp
  qed
  with d show ?thesis
    unfolding to_omero_dict_fold by (rule fold_dict_set_append)
qed

lemma map_of_reference_items_reserved:
  "list_all (\<lambda>r. py_startswith (name r) ''_'') rs \<Longrightarrow> \<not> py_startswith k ''_'' \<Longrightarrow>
   map_of (map reference_item rs) k = None"
  by (induction rs) (auto simp: reference_item_def)

lemma reference_sheets_of_items:
  "list_all (\<lambda>r. py_startswith (name r) ''_'') rs \<Longrightarrow>
   reference_sheets_of (map reference_item rs) = Inr rs"
  by (induction rs)
     (simp_all add: reference_item_def is_reference_item_def new_ReferenceSheet_def bind_err_def)

lemma reference_sheets_of_skip:
  "list_all (\<lambda>kv. \<not> is_reference_item kv) xs \<Longrightarrow> reference_sheets_of (xs @ ys) = reference_sheets_of ys"
  by (induction xs) simp_all

lemma head_items_not_reference: "list_all (\<lambda>kv. \<not> is_reference_item kv) (head_items m)"
  by (auto simp: head_items_def is_reference_item_def py_startswith_def split: option.splits)


lemma lookup_reserved:
  assumes "list_all (\<lambda>r. py_startswith (name r) ''_'') rs" and "\<not> py_startswith k ''_''"
  shows "map_of (xs @ map reference_item rs) k = map_of xs k"
  using map_of_reference_items_reserved [OF assms]
  by (simp add: map_of_append map_add_def split: option.splits)

lemma lookup_investigation:
  "map_of (head_items m) ''InvestigationInformation''
   = map_option (\<lambda>i. groups_val (inv_groups i)) (investigation_information m)"
  by (simp add: head_items_def split: option.splits)

lemma lookup_study:
  "map_of (head_items m) ''StudyInformation''
   = map_option (\<lambda>i. groups_val (study_groups i)) (study_information m)"
  by (simp add: head_items_def split: option.splits)

lemma lookup_assay:
  "map_of (head_items m) ''AssayInformation''
   = map_option (\<lambda>i. groups_val (assay_groups i)) (assay_information m)"
  by (simp add: head_items_def split: option.splits)

lemma lookup_conditions:
  "map_of (head_items m) ''AssayConditions''
   = (if assay_conditions m \<noteq> []
      then Some (PList (map (\<lambda>c. PDict (condition_dict c)) (assay_conditions m))) else None)"
  by (simp add: head_items_def split: option.splits)

lemma round_trip_wf:
  assumes wf: "wf_metadata m"
  shows "from_omero_dict (to_omero_dict m) = Inr m"
proof -
  let ?rs = "reference_sheets m"
  define dd where "dd = head_items m @ map reference_item ?rs"
  from wf have us: "list_all (\<lambda>r. py_startswith (name r) ''_'') ?rs"
    and cs: "list_all wf_condition (assay_conditions m)"
    by (simp_all add: wf_metadata_def)
  have l1: "map_of dd ''InvestigationInformation'' = map_option (\<lambda>i. groups_val (inv_groups i)) (investigation_information m)"
    unfolding dd_def using lookup_reserved [OF us, of "''InvestigationInformation''"]
    by (simp add: py_startswith_def lookup_investigation)
  have l2: "map_of dd ''StudyInformation'' = map_option (\<lambda>i. groups_val (study_groups i)) (study_information m)"
    unfolding dd_def using lookup_reserved [OF us, of "''StudyInformation''"]
    by (simp add: py_startswith_def lookup_study)
  have l3: "map_of dd ''AssayInformation'' = map_option (\<lambda>i. groups_val (assay_groups i)) (assay_information m)"
    unfolding dd_def using lookup_reserved [OF us, of "''AssayInformation''"]
    by (simp add: py_startswith_def lookup_assay)
  have l4: "map_of dd ''AssayConditions'' = (if assay_conditions m \<noteq> []
      then Some (PList (map (\<lambda>c. PDict (condition_dict c)) (assay_conditions m))) else None)"
    unfolding dd_def using lookup_reserved [OF us, of "''AssayConditions''"]
    by (simp add: py_startswith_def lookup_conditions)
  have t1: "(case map_of dd ''InvestigationInformation'' of None \<Rightarrow> Inr None
              | Some v \<Rightarrow> bind_err (new_InvestigationInformation v) (\<lambda>i. Inr (Some i)))
            = Inr (investigation_information m)"
    by (cases "investigation_information m")
       (simp_all add: l1 new_InvestigationInformation_def validate_groups_val bind_err_def)
  have t2: "(case map_of dd ''StudyInformation'' of None \<Rightarrow> Inr None
              | Some v \<Rightarrow> bind_err (new_StudyInformation v) (\<lambda>i. Inr (Some i)))
            = Inr (study_information m)"
    by (cases "study_information m")
       (simp_all add: l2 new_StudyInformation_def validate_groups_val bind_err_def)
  have t3: "(case map_of dd ''AssayInformation'' of None \<Rightarrow> Inr None
              | Some v \<Rightarrow> bind_err (new_AssayInformation v) (\<lambda>i. Inr (Some i)))
            = Inr (assay_information m)"
    by (cases "assay_information m")
       (simp_all add: l3 new_AssayInformation_def validate_groups_val bind_err_def)
  have t4: "(case map_of dd ''AssayConditions'' of Some (PList cs) \<Rightarrow> conditions_of_list cs | _ \<Rightarrow> Inr [])
            = Inr (assay_conditions m)"
    using conditions_round_trip [OF cs] by (simp add: l4)
  have t5: "reference_sheets_of dd = Inr ?rs"
    unfolding dd_def
    using reference_sheets_of_skip [OF head_items_not_reference, of m "map reference_item ?rs"]
      reference_sheets_of_items [OF us] by simp
  have "from_omero_dict dd = Inr m"
    unfolding from_omero_dict_def t1 t2 t3 t4 t5 by (simp add: bind_err_def)
  then show ?thesis by (simp add: to_omero_dict_shape [OF wf] dd_def)
qed

lemma reference_sheets_of_filter:
  "reference_sheets_of d = Inr rs \<Longrightarrow> map reference_item rs = filter is_reference_item d"
proof (induction d arbitrary: rs)
  case Nil
  then show ?case by simp
next
  case (Cons kv d)
  show ?case
  proof (cases "is_reference_item kv")
    case True
    with Cons.prems obtain r rest where r: "new_ReferenceSheet (PStr (fst kv)) (snd kv) = Inr r"
      and rest: "reference_sheets_of d = Inr rest" and rs: "rs = r # rest"
      by (auto simp: bind_err_def split: sum.splits)
    from r True have "reference_item r = kv"
      by (cases kv) (auto simp: new_ReferenceSheet_def reference_item_def is_reference_item_def split: pyval.splits)
    with Cons.IH [OF rest] rs True show ?thesis by simp
  next
    case False
    with Cons show ?thesis by simp
  qed
qed

lemma from_omero_dict_wf:
  assumes "from_omero_dict d = Inr m" and "wf_pyval (PDict d)"
  shows "wf_metadata m"
proof -
  from assms(1) have
    c: "(case map_of d ''AssayConditions'' of Some (PList cs) \<Rightarrow> conditions_of_list cs | _ \<Rightarrow> Inr []) = Inr (assay_conditions m)"
    and r: "reference_sheets_of d = Inr (reference_sheets m)"
    by (auto simp: from_omero_dict_def bind_err_def split: sum.splits)
  have "list_all wf_condition (assay_conditions m)"
  proof (cases "map_of d ''AssayConditions''")
    case None
    with c show ?thesis by simp
  next
    case (Some v)
    show ?thesis
    proof (cases v)
      case (PList xs)
      from Some have "(''AssayConditions'', v) \<in> set d" by (rule map_of_SomeD)
      with assms(2) have "wf_pyval v" by (auto simp: list_all_iff)
      with PList have "list_all wf_pyval xs" by simp
      moreover from c Some PList have "conditions_of_list xs = Inr (assay_conditions m)" by simp
      ultimately show ?thesis by (simp add: conditions_of_list_wf)
    qed (use c Some in simp_all)
  qed
  moreover
  from reference_sheets_of_filter [OF r]
  have f: "map reference_item (reference_sheets m) = filter is_reference_item d" .
  have "map name (reference_sheets m) = map fst (map reference_item (reference_sheets m))"
    by (simp add: reference_item_def comp_def)
  with f have n: "map name (reference_sheets m) = map fst (filter is_reference_item d)" by simp
  from assms(2) have "distinct (map fst (filter is_reference_item d))"
    by (simp add: distinct_map_filter)
  with n have "distinct (map name (reference_sheets m))" by simp
  moreover
  have "\<forall>k \<in> set (map fst (filter is_reference_item d)). py_startswith k ''_''"
    by (auto simp: is_reference_item_def)
  with n have "list_all (\<lambda>r. py_startswith (name r) ''_'') (reference_sheets m)"
    by (simp add: list_all_iff flip: n)
  ultimately show ?thesis by (simp add: wf_metadata_def)
qed

text \<open>
  Claim C1. For every root model \<open>m\<close> of the flat dictionary grammar (validated wells,
  distinct condition fields named neither \<open>Plate\<close> nor \<open>Well\<close>, reference sheets with
  distinct names that start with an underscore), \<open>from_omero_dict (to_omero_dict m)\<close>
  succeeds and gives \<open>m\<close> back: the same tiers with their groups, fields and values, the
  same conditions with plate, normalized well and condition fields, and the same reference
  sheets with name and data. Every model that \<open>from_omero_dict\<close> builds from a Python
  dictionary is of this grammar (lemma \<open>from_omero_dict_wf\<close>).
\<close>

theorem omero_dict_round_trip:
  assumes "wf_metadata m"
  shows "from_omero_dict (to_omero_dict m) = Inr m"
  using assms by (rule round_trip_wf)

theorem omero_dict_round_trip_witness:
  "to_omero_dict round_trip_model
     = [(''InvestigationInformation'', PDict [(''Investigation'', PDict [(''ID'', PStr ''INV-001'')])]),
        (''StudyInformation'', PDict [(''Study'', PDict [(''Title'', PStr ''Test Study''), (''Replicates'', PInt 3)])]),
        (''AssayInformation'', PDict [(''Assay'', PDict [(''Type'', PStr ''Imaging'')])]),
        (''AssayConditions'', PList
           [PDict [(''Plate'', PStr ''P1''), (''Well'', PStr ''A01''), (''Drug'', PStr ''Control'')],
            PDict [(''Plate'', PStr ''P1''), (''Well'', PStr ''B12'')]]),
        (''_Organisms'', PDict [(''Human'', PStr ''Homo sapiens'')])]
   \<and> from_omero_dict (to_omero_dict round_trip_model) = Inr round_trip_model"
  (is "?d \<and> ?r")
proof -
  have d: ?d by code_simp
  have w: "wf_metadata round_trip_model" by code_simp
  from omero_dict_round_trip [OF w] d show ?thesis by blast
qed

lemma validate_groups_error: "validate_groups v = Inl e \<Longrightarrow> \<exists>errs. e = ValidationError errs"
  by (auto simp: validate_groups_def split: list.splits)

lemma new_tier_errors:
  "new_InvestigationInformation v = Inl e \<Longrightarrow> \<exists>errs. e = ValidationError errs"
  "new_StudyInformation v = Inl e \<Longrightarrow> \<exists>errs. e = ValidationError errs"
  "new_AssayInformation v = Inl e \<Longrightarrow> \<exists>errs. e = ValidationError errs"
  using validate_groups_error
  by (auto simp: new_InvestigationInformation_def new_StudyInformation_def new_AssayInformation_def
      bind_err_def split: sum.splits)

lemma new_AssayCondition_error:
  assumes "new_AssayCondition p w c = Inl e"
  shows "\<exists>errs. e = ValidationError errs"
proof (cases "str_errors ''plate'' p @ well_errors w = []")
  case False
  with assms show ?thesis
    by (auto simp: new_AssayCondition_def split: list.splits pyval.splits)
next
  case True
  then obtain ps ws where p: "p = PStr ps" and w: "w = PStr ws"
    by (auto simp: str_errors_def well_errors_def split: pyval.splits)
  from True w have "\<forall>msg. normalize_well_name ws \<noteq> Inl (ValueError msg)"
    by (auto simp: well_errors_def split: sum.splits error.splits)
  with normalize_error_is_ValueError [of ws] obtain t where "normalize_well_name ws = Inr t"
    by (cases "normalize_well_name ws") auto
  with assms True p w show ?thesis
    by (simp add: new_AssayCondition_def)
qed

lemma short_well_rejected:
  assumes "length (py_strip w) < 2"
  shows "\<exists>msg. normalize_well_name w = Inl (ValueError msg)"
proof (cases "py_strip w")
  case Nil
  then show ?thesis by (simp add: normalize_well_name_def py_upper_def)
next
  case (Cons c cs)
  with assms have cs: "cs = []" by simp
  show ?thesis
  proof (cases "(of_char c :: nat) = 223")
    case True
    with Cons cs have "py_upper (py_strip w) = ''SS''" by (simp add: py_upper_def upper_chars_def)
    then show ?thesis by (simp add: normalize_well_name_def)
  next
    case False
    with Cons cs have "py_upper (py_strip w) = [upper_char c]" by (simp add: py_upper_def upper_chars_def)
    then show ?thesis by (simp add: normalize_well_name_def)
  qed
qed

lemma bad_well_condition:
  assumes "map_of c ''Well'' = None \<or> (\<exists>w. map_of c ''Well'' = Some (PStr w) \<and> length (py_strip w) < 2)"
  shows "\<exists>errs. condition_of_dict (PDict c) = Inl (ValidationError errs)"
proof -
  from assms obtain w where w: "dict_get c ''Well'' (PStr []) = PStr w" and s: "length (py_strip w) < 2"
    by (auto simp: dict_get_def py_strip_def)
  from short_well_rejected [OF s] obtain msg where "normalize_well_name w = Inl (ValueError msg)" ..
  then have "well_errors (PStr w) \<noteq> []" by (simp add: well_errors_def)
  then have "\<exists>errs. new_AssayCondition (dict_get c ''Plate'' (PStr [])) (PStr w)
      (filter (\<lambda>kv. not_plate_well (fst kv)) c) = Inl (ValidationError errs)"
    by (auto simp: new_AssayCondition_def split: list.splits pyval.splits)
  with w show ?thesis by (simp add: condition_of_dict_def)
qed

lemma conditions_of_list_fails:
  "x \<in> set cs \<Longrightarrow> condition_of_dict x = Inl e \<Longrightarrow> \<exists>e'. conditions_of_list cs = Inl e'"
  by (induction cs) (auto simp: bind_err_def split: sum.splits)

lemma conditions_of_list_error:
  "conditions_of_list cs = Inl e \<Longrightarrow> \<forall>x \<in> set cs. \<exists>cd. x = PDict cd \<Longrightarrow> \<exists>errs. e = ValidationError errs"
proof (induction cs)
  case Nil
  then show ?case by simp
next
  case (Cons x xs)
  from Cons.prems(2) obtain cd where x: "x = PDict cd" by auto
  show ?case
  proof (cases "condition_of_dict x")
    case (Inl e')
    with Cons.prems(1) have "e = e'" by (simp add: bind_err_def)
    with Inl x new_AssayCondition_error show ?thesis
      by (auto simp: condition_of_dict_def)
  next
    case (Inr c)
    with Cons.prems(1) have "conditions_of_list xs = Inl e"
      by (auto simp: bind_err_def split: sum.splits)
    with Cons.IH Cons.prems(2) show ?thesis by simp
  qed
qed

text \<open>
  Claim C9, as stated, fails: when the list under \<open>AssayConditions\<close> holds something that
  is not a dictionary before the dictionary without \<open>Well\<close>, the loop stops at the call
  of \<open>.get\<close> on it, and the error that leaves \<open>from_omero_dict\<close> is an AttributeError,
  not a validation error.
\<close>

theorem from_omero_dict_attribute_error:
  "from_omero_dict [(''AssayConditions'', PList [PStr ''x'', PDict [(''Plate'', PStr ''P1'')]])]
     = Inl (AttributeError ''get'')"
  by code_simp

text \<open>
  Claim C9, amended. When the list under \<open>AssayConditions\<close> contains a dictionary without
  the key \<open>Well\<close>, or with a \<open>Well\<close> string shorter than 2 characters after trimming,
  \<open>from_omero_dict\<close> does not return a model; and when the list holds dictionaries only,
  the error it raises is a validation error.
\<close>

theorem from_omero_dict_rejects_bad_well:
  assumes ac: "map_of d ''AssayConditions'' = Some (PList cs)"
    and c: "PDict c \<in> set cs"
    and w: "map_of c ''Well'' = None \<or> (\<exists>w. map_of c ''Well'' = Some (PStr w) \<and> length (py_strip w) < 2)"
  shows "(\<forall>m. from_omero_dict d \<noteq> Inr m)
       \<and> ((\<forall>x \<in> set cs. \<exists>cd. x = PDict cd) \<longrightarrow> (\<exists>errs. from_omero_dict d = Inl (ValidationError errs)))"
proof -
  from bad_well_condition [OF w] obtain errs where "condition_of_dict (PDict c) = Inl (ValidationError errs)" ..
  from conditions_of_list_fails [OF c this] obtain e' where e': "conditions_of_list cs = Inl e'" ..
  have 1: "\<forall>m. from_omero_dict d \<noteq> Inr m"
    using ac e' by (auto simp: from_omero_dict_def bind_err_def split: sum.splits option.splits)
  have 2: "\<exists>errs. from_omero_dict d = Inl (ValidationError errs)" if dicts: "\<forall>x \<in> set cs. \<exists>cd. x = PDict cd"
  proof -
    from conditions_of_list_error [OF e' dicts] obtain errs' where "e' = ValidationError errs'" ..
    with e' have ce: "conditions_of_list cs = Inl (ValidationError errs')" by simp
    from 1 obtain e where e: "from_omero_dict d = Inl e" by (cases "from_omero_dict d") auto
    then have "\<exists>errs. e = ValidationError errs"
      using ac ce new_tier_errors
      by (auto simp: from_omero_dict_def bind_err_def split: sum.splits option.splits)
    with e show ?thesis by auto
  qed
  from 1 2 show ?thesis by blast
qed

theorem from_omero_dict_rejects_bad_well_witness:
  "map_of [(''AssayConditions'', PList [PDict [(''Plate'', PStr ''P1''), (''Well'', PStr ''A1'')], PDict [(''Plate'', PStr ''P1'')]])]
      ''AssayConditions''
     = Some (PList [PDict [(''Plate'', PStr ''P1''), (''Well'', PStr ''A1'')], PDict [(''Plate'', PStr ''P1'')]])
   \<and> PDict [(''Plate'', PStr ''P1'')] \<in> set [PDict [(''Plate'', PStr ''P1''), (''Well'', PStr ''A1'')], PDict [(''Plate'', PStr ''P1'')]]
   \<and> map_of [(''Plate'', PStr ''P1'')] ''Well'' = None
   \<and> (\<exists>errs. from_omero_dict [(''AssayConditions'', PList [PDict [(''Plate'', PStr ''P1''), (''Well'', PStr ''A1'')], PDict [(''Plate'', PStr ''P1'')]])]
         = Inl (ValidationError errs))"
  (is "?h1 \<and> ?h2 \<and> ?h3 \<and> ?c")
proof -
  have h1: ?h1 by simp
  have h2: ?h2 by simp
  have h3: ?h3 by simp
  have h4: "\<forall>x \<in> set [PDict [(''Plate'', PStr ''P1''), (''Well'', PStr ''A1'')], PDict [(''Plate'', PStr ''P1'')]].
              \<exists>cd. x = PDict cd"
    by simp
  from from_omero_dict_rejects_bad_well [OF h1 h2 disjI1 [OF h3]] h4 have ?c by blast
  with h1 h2 h3 show ?thesis by blast
qed

lemma key_in_iff: "k \<in> fst ` set d \<longleftrightarrow> map_of d k \<noteq> None"
  by (simp add: map_of_eq_None_iff)

lemma keys_dict_set: "fst ` set (dict_set k v d) = insert k (fst ` set d)"
  by (induction d) auto

lemma keys_fold_dict_set:
  "fst ` set (fold (\<lambda>kv d. dict_set (fst kv) (snd kv) d) xs acc) = fst ` set acc \<union> fst ` set xs"
  by (induction xs arbitrary: acc) (auto simp: keys_dict_set)

lemma keys_to_omero_dict:
  "fst ` set (to_omero_dict m) = fst ` set (head_items m) \<union> name ` set (reference_sheets m)"
  by (simp add: to_omero_dict_fold keys_fold_dict_set image_image reference_item_def)

text \<open>
  Claim C10, as stated, fails: a reference sheet may bear any name, and one named
  \<open>AssayConditions\<close> puts that key into the output although the list of conditions is
  empty.
\<close>

theorem to_omero_dict_key_from_reference_sheet:
  "''AssayConditions'' \<in> fst ` set (to_omero_dict
      \<lparr>investigation_information = None, study_information = None, assay_information = None,
       assay_conditions = [], reference_sheets = [\<lparr>name = ''AssayConditions'', data = []\<rparr>]\<rparr>)
   \<and> assay_conditions
      \<lparr>investigation_information = None, study_information = None, assay_information = None,
       assay_conditions = [], reference_sheets = [\<lparr>name = ''AssayConditions'', data = []\<rparr>]\<rparr> = []"
  by (simp add: to_omero_dict_def)

text \<open>
  Claim C10, amended. When no reference sheet is named like one of the four reserved keys,
  the output of \<open>to_omero_dict\<close> contains each tier's key exactly when the tier is set, and
  the key \<open>AssayConditions\<close> exactly when the list of conditions is not empty.
\<close>

theorem to_omero_dict_keys:
  assumes "\<forall>r \<in> set (reference_sheets m). name r \<notin> set reserved_keys"
  shows "(''InvestigationInformation'' \<in> fst ` set (to_omero_dict m) \<longleftrightarrow> investigation_information m \<noteq> None)
       \<and> (''StudyInformation'' \<in> fst ` set (to_omero_dict m) \<longleftrightarrow> study_information m \<noteq> None)
       \<and> (''AssayInformation'' \<in> fst ` set (to_omero_dict m) \<longleftrightarrow> assay_information m \<noteq> None)
       \<and> (''AssayConditions'' \<in> fst ` set (to_omero_dict m) \<longleftrightarrow> assay_conditions m \<noteq> [])"
proof -
  from assms have n: "''InvestigationInformation'' \<notin> name ` set (reference_sheets m)"
     "''StudyInformation'' \<notin> name ` set (reference_sheets m)"
     "''AssayInformation'' \<notin> name ` set (reference_sheets m)"
     "''AssayConditions'' \<notin> name ` set (reference_sheets m)"
    by (auto simp: reserved_keys_def)
  have h1: "''InvestigationInformation'' \<in> fst ` set (head_items m) \<longleftrightarrow> investigation_information m \<noteq> None"
    unfolding key_in_iff lookup_investigation by simp
  have h2: "''StudyInformation'' \<in> fst ` set (head_items m) \<longleftrightarrow> study_information m \<noteq> None"
    unfolding key_in_iff lookup_study by simp
  have h3: "''AssayInformation'' \<in> fst ` set (head_items m) \<longleftrightarrow> assay_information m \<noteq> None"
    unfolding key_in_iff lookup_assay by simp
  have h4: "''AssayConditions'' \<in> fst ` set (head_items m) \<longleftrightarrow> assay_conditions m \<noteq> []"
    unfolding key_in_iff lookup_conditions by simp
  from n h1 h2 h3 h4 show ?thesis by (simp add: keys_to_omero_dict)
qed

theorem to_omero_dict_keys_witness:
  "''_Organisms'' \<notin> set reserved_keys
   \<and> ''InvestigationInformation'' \<in> fst ` set (to_omero_dict
        \<lparr>investigation_information = Some \<lparr>inv_groups = []\<rparr>, study_information = None, assay_information = None,
         assay_conditions = [], reference_sheets = [\<lparr>name = ''_Organisms'', data = []\<rparr>]\<rparr>)
   \<and> ''AssayConditions'' \<notin> fst ` set (to_omero_dict
        \<lparr>investigation_information = Some \<lparr>inv_groups = []\<rparr>, study_information = None, assay_information = None,
         assay_conditions = [], reference_sheets = [\<lparr>name = ''_Organisms'', data = []\<rparr>]\<rparr>)"
  (is "?h \<and> ?a \<and> ?b")
proof -
  have h: ?h by (simp add: reserved_keys_def)
  then have "\<forall>r \<in> set (reference_sheets
        \<lparr>investigation_information = Some \<lparr>inv_groups = []\<rparr>, study_information = None, assay_information = None,
         assay_conditions = [], reference_sheets = [\<lparr>name = ''_Organisms'', data = []\<rparr>]\<rparr>). name r \<notin> set reserved_keys"
    by simp
  from to_omero_dict_keys [OF this] h show ?thesis by simp
qed

lemma reference_sheets_of_names:
  assumes "reference_sheets_of d = Inr rs"
  shows "list_all (\<lambda>r. py_startswith (name r) ''_'') rs"
proof -
  have "\<forall>kv \<in> set (map reference_item rs). py_startswith (fst kv) ''_''"
    unfolding reference_sheets_of_filter [OF assms] by (auto simp: is_reference_item_def)
  then show ?thesis by (simp add: list_all_iff reference_item_def)
qed

lemma reference_sheets_of_workbook_names:
  "list_all (\<lambda>r. py_startswith (name r) ''_'') (reference_sheets_of_workbook wb ns)"
  by (induction ns) (auto simp: Let_def split: option.splits)

lemma example_sheet_names:
  "map fst example_workbook
     = [''InvestigationInformation'', ''StudyInformation'', ''AssayInformation'', ''AssayConditions'', ''_Organisms'']"
  by (simp add: example_workbook_def)

lemma example_investigation_tier:
  "tier_groups example_workbook ''InvestigationInformation''
     = Inr (Some [(''DataOwner'', [(''First Name'', PStr ''Jane'')])])"
  by code_simp

lemma example_study_tier:
  "tier_groups example_workbook ''StudyInformation''
     = Inr (Some [(''Study'', [(''Study Title'', PStr ''Test study'')])])"
  by code_simp

lemma example_assay_tier:
  "tier_groups example_workbook ''AssayInformation''
     = Inr (Some [(''Assay'', [(''Assay Title'', PStr ''Test assay'')])])"
  by code_simp

lemma example_conditions:
  "bind_err (read_sheet example_workbook ''AssayConditions'') (parse_assay_conditions ''AssayConditions'')
     = Inr [\<lparr>plate = ''PlateA'', well = ''A01'', conditions = [(''Compound'', PStr ''DMSO'')]\<rparr>]"
  by code_simp

lemma example_reference_sheets:
  "reference_sheets_of_workbook example_workbook
       [''InvestigationInformation'', ''StudyInformation'', ''AssayInformation'', ''AssayConditions'', ''_Organisms'']
     = [\<lparr>name = ''_Organisms'', data = [(''Human'', PStr ''Homo sapiens'')]\<rparr>]"
  by code_simp

lemma lower_xlsx: "py_lower ''.xlsx'' = ''.xlsx''"
  by code_simp

lemma bind_err_Inr: "bind_err (Inr x) f = f x"
  by (simp add: bind_err_def)

lemma example_workbook_parse:
  "parse_excel_to_model \<lparr>file_exists = True, file_path = ''m.xlsx'', file_suffix = ''.xlsx'', workbook = example_workbook\<rparr>
     = Inr example_model"
  by (simp add: parse_excel_to_model_def lower_xlsx example_sheet_names required_sheets_def
      SHEET_INVESTIGATION_def SHEET_STUDY_def SHEET_ASSAY_def SHEET_CONDITIONS_def
      example_investigation_tier example_study_tier example_assay_tier example_conditions
      example_reference_sheets bind_err_Inr example_model_def
      del: reference_sheets_of_workbook.simps)

text \<open>
  Claim C8, as stated, fails: the class \<open>ReferenceSheet\<close> declares no validator for its
  name, so constructing one whose name lacks the underscore succeeds.
\<close>

theorem reference_sheet_name_unchecked:
  "new_ReferenceSheet (PStr ''Organisms'') (PDict []) = Inr \<lparr>name = ''Organisms'', data = []\<rparr>
   \<and> \<not> py_startswith (name \<lparr>name = ''Organisms'', data = []\<rparr>) ''_''"
  by (simp add: new_ReferenceSheet_def py_startswith_def)

text \<open>
  Claim C8, amended. Every reference sheet of a model built by \<open>from_omero_dict\<close> or by
  \<open>parse_excel_to_model\<close> has a name that starts with an underscore; direct construction
  checks nothing about the name.
\<close>

theorem reference_sheet_names_from_builders:
  "(from_omero_dict d = Inr m \<longrightarrow> list_all (\<lambda>r. py_startswith (name r) ''_'') (reference_sheets m))
   \<and> (parse_excel_to_model f = Inr m' \<longrightarrow> list_all (\<lambda>r. py_startswith (name r) ''_'') (reference_sheets m'))"
proof -
  have 1: "list_all (\<lambda>r. py_startswith (name r) ''_'') (reference_sheets m)" if "from_omero_dict d = Inr m"
  proof -
    from that have "reference_sheets_of d = Inr (reference_sheets m)"
      by (auto simp: from_omero_dict_def bind_err_def split: sum.splits)
    then show ?thesis by (rule reference_sheets_of_names)
  qed
  have 2: "list_all (\<lambda>r. py_startswith (name r) ''_'') (reference_sheets m')" if "parse_excel_to_model f = Inr m'"
  proof -
    from that have "reference_sheets m' = reference_sheets_of_workbook (workbook f) (map fst (workbook f))"
      by (auto simp: parse_excel_to_model_def bind_err_def Let_def split: sum.splits if_splits)
    then show ?thesis by (simp add: reference_sheets_of_workbook_names)
  qed
  from 1 2 show ?thesis by blast
qed

theorem reference_sheet_names_from_builders_witness:
  "from_omero_dict [(''_Organisms'', PDict [(''Human'', PStr ''Homo sapiens'')])]
     = Inr \<lparr>investigation_information = None, study_information = None, assay_information = None,
            assay_conditions = [],
            reference_sheets = [\<lparr>name = ''_Organisms'', data = [(''Human'', PStr ''Homo sapiens'')]\<rparr>]\<rparr>
   \<and> parse_excel_to_model \<lparr>file_exists = True, file_path = ''m.xlsx'', file_suffix = ''.xlsx'', workbook = example_workbook\<rparr>
     = Inr example_model
   \<and> reference_sheets example_model = [\<lparr>name = ''_Organisms'', data = [(''Human'', PStr ''Homo sapiens'')]\<rparr>]
   \<and> list_all (\<lambda>r. py_startswith (name r) ''_'') [\<lparr>name = ''_Organisms'', data = [(''Human'', PStr ''Homo sapiens'')]\<rparr>]"
  (is "?a \<and> ?c \<and> ?r \<and> ?b")
proof -
  have a: ?a by code_simp
  have c: ?c by (rule example_workbook_parse)
  have r: ?r by (simp add: example_model_def)
  note inst = reference_sheet_names_from_builders
    [of "[(''_Organisms'', PDict [(''Human'', PStr ''Homo sapiens'')])]"
        "\<lparr>investigation_information = None, study_information = None, assay_information = None,
            assay_conditions = [],
            reference_sheets = [\<lparr>name = ''_Organisms'', data = [(''Human'', PStr ''Homo sapiens'')]\<rparr>]\<rparr>"
        "\<lparr>file_exists = True, file_path = ''m.xlsx'', file_suffix = ''.xlsx'', workbook = example_workbook\<rparr>"
        example_model]
  from inst c have "list_all (\<lambda>r. py_startswith (name r) ''_'') (reference_sheets example_model)"
    by blast
  then have ?b by (simp only: r)
  with a c r show ?thesis by blast
qed

section \<open>Properties of the parser\<close>

lemma join_contains: "s \<in> set xs \<Longrightarrow> \<exists>pre post. join sep xs = pre @ s @ post"
proof (induction sep xs rule: join.induct)
  case (1 sep)
  then show ?case by simp
next
  case (2 sep x)
  then have "join sep [x] = [] @ s @ []" by simp
  then show ?case by blast
next
  case (3 sep x y ys)
  show ?case
  proof (cases "s = x")
    case True
    then have "join sep (x # y # ys) = [] @ s @ (sep @ join sep (y # ys))" by simp
    then show ?thesis by blast
  next
    case False
    with 3 obtain pre post where "join sep (y # ys) = pre @ s @ post" by auto
    then have "join sep (x # y # ys) = (x @ sep @ pre) @ s @ post" by simp
    then show ?thesis by blast
  qed
qed

text \<open>
  Claim C4. For a workbook file that exists, bears an Excel suffix and lacks one or more
  of the four required sheets, \<open>parse_excel_to_model\<close> fails with one ValueError whose
  message is \<open>Missing required sheets: \<close> followed by all the missing names, joined by
  commas in the order of the required list; so every missing name occurs in the message.
\<close>

theorem missing_sheets_all_named:
  assumes "file_exists f" and "py_lower (file_suffix f) = ''.xlsx'' \<or> py_lower (file_suffix f) = ''.xls''"
    and "\<exists>s \<in> set required_sheets. s \<notin> fst ` set (workbook f)"
  shows "\<exists>msg. parse_excel_to_model f = Inl (ValueError msg)
           \<and> msg = ''Missing required sheets: '' @ join '', '' (filter (\<lambda>s. s \<notin> fst ` set (workbook f)) required_sheets)
           \<and> (\<forall>s \<in> set required_sheets. s \<notin> fst ` set (workbook f) \<longrightarrow> (\<exists>pre post. msg = pre @ s @ post))"
proof -
  let ?missing = "filter (\<lambda>s. s \<notin> fst ` set (workbook f)) required_sheets"
  let ?msg = "''Missing required sheets: '' @ join '', '' ?missing"
  from assms(3) have ne: "?missing \<noteq> []" by (auto simp: filter_empty_conv)
  with assms(1,2) have 1: "parse_excel_to_model f = Inl (ValueError ?msg)"
    by (auto simp: parse_excel_to_model_def Let_def)
  have 2: "\<exists>pre post. ?msg = pre @ s @ post" if "s \<in> set required_sheets" "s \<notin> fst ` set (workbook f)" for s
  proof -
    from that have "s \<in> set ?missing" by simp
    from join_contains [OF this] obtain pre post where "join '', '' ?missing = pre @ s @ post" by blast
    then have "?msg = (''Missing required sheets: '' @ pre) @ s @ post" by simp
    then show ?thesis by blast
  qed
  from 1 2 show ?thesis by blast
qed

theorem missing_sheets_all_named_witness:
  "parse_excel_to_model \<lparr>file_exists = True, file_path = ''m.xlsx'', file_suffix = ''.XLSX'',
        workbook = [(''StudyInformation'', []), (''_Organisms'', [])]\<rparr>
     = Inl (ValueError ''Missing required sheets: InvestigationInformation, AssayInformation, AssayConditions'')"
proof -
  let ?f = "\<lparr>file_exists = True, file_path = ''m.xlsx'', file_suffix = ''.XLSX'',
        workbook = [(''StudyInformation'', []), (''_Organisms'', [])]\<rparr>"
  have h1: "file_exists ?f" by simp
  have h2: "py_lower (file_suffix ?f) = ''.xlsx'' \<or> py_lower (file_suffix ?f) = ''.xls''" by code_simp
  have h3: "\<exists>s \<in> set required_sheets. s \<notin> fst ` set (workbook ?f)"
    by (simp add: required_sheets_def SHEET_INVESTIGATION_def)
  have m: "filter (\<lambda>s. s \<notin> fst ` set (workbook ?f)) required_sheets
     = [''InvestigationInformation'', ''AssayInformation'', ''AssayConditions'']"
    by (simp add: required_sheets_def SHEET_INVESTIGATION_def SHEET_STUDY_def SHEET_ASSAY_def SHEET_CONDITIONS_def)
  from missing_sheets_all_named [OF h1 h2 h3] show ?thesis unfolding m by simp
qed

section \<open>Properties of the deletion of annotations\<close>

lemma delete_from_missing_object:
  "getObject conn object_type object_id = None \<Longrightarrow>
   delete_annotations_from_object conn object_type object_id namespace = (0, conn)"
  by (simp add: delete_annotations_from_object_def)

lemma delete_nothing_matching:
  "getObject conn object_type object_id = Some anns \<Longrightarrow> list_all (skipped namespace) anns \<Longrightarrow>
   delete_annotations_from_object conn object_type object_id namespace = (0, conn)"
  by (simp add: delete_annotations_from_object_def list_all_iff filter_empty_conv)

text \<open>
  Claim C5. The claim says that a call with a namespace prefix removes exactly the
  annotations whose namespace starts with the prefix. On a plate with three annotations,
  one without a namespace, one under \<open>MIHCSME/AssayConditions\<close> and one under another
  namespace, the call with the prefix \<open>MIHCSME\<close> removes two: the annotation without a
  namespace goes as well.
\<close>

theorem delete_removes_annotation_without_namespace:
  "delete_annotations_from_object
     [((''Plate'', 1),
       [\<lparr>ann_id = 7, has_getNs = True, ann_ns = None\<rparr>,
        \<lparr>ann_id = 8, has_getNs = True, ann_ns = Some ''MIHCSME/AssayConditions''\<rparr>,
        \<lparr>ann_id = 9, has_getNs = True, ann_ns = Some ''openmicroscopy.org/omero/client/mapAnnotation''\<rparr>])]
     ''Plate'' 1 (Some ''MIHCSME'')
   = (2, [((''Plate'', 1),
       [\<lparr>ann_id = 9, has_getNs = True, ann_ns = Some ''openmicroscopy.org/omero/client/mapAnnotation''\<rparr>])])"
  by (simp add: delete_annotations_from_object_def getObject_def deleteObjects_def skipped_def truthy_def py_startswith_def)

section \<open>Properties of the Grouping Engine\<close>

lemma map_of_dict_set: "map_of (dict_set k v d) = (map_of d)(k \<mapsto> v)"
  by (induction d) (auto simp: fun_eq_iff)

lemma distinct_dict_set: "distinct (map fst d) \<Longrightarrow> distinct (map fst (dict_set k v d))"
  by (induction d) (auto simp: keys_dict_set)

lemma set_dict_set: "set (dict_set k v d) \<subseteq> insert (k, v) (set d)"
  by (induction d) auto

lemma lookup2_step:
  "lookup2 (organize_step tax kv res) g k
   = (if g = group_of_field tax (fst kv) \<and> k = fst kv then Some (snd kv) else lookup2 res g k)"
  by (auto simp: lookup2_def organize_step_def Let_def map_of_dict_set split: option.splits)

lemma wf_groups_step: "wf_groups res \<Longrightarrow> wf_groups (organize_step tax kv res)"
proof -
  assume wf: "wf_groups res"
  let ?g = "group_of_field tax (fst kv)"
  let ?inner = "case map_of res ?g of None \<Rightarrow> [] | Some d \<Rightarrow> d"
  from wf have "distinct (map fst ?inner)"
    by (auto simp: wf_groups_def list_all_iff split: option.splits dest!: map_of_SomeD)
  then have d: "distinct (map fst (dict_set (fst kv) (snd kv) ?inner))" by (rule distinct_dict_set)
  have "set (dict_set ?g (dict_set (fst kv) (snd kv) ?inner) res)
        \<subseteq> insert (?g, dict_set (fst kv) (snd kv) ?inner) (set res)" by (rule set_dict_set)
  with wf d have "list_all (\<lambda>gf. distinct (map fst (snd gf))) (dict_set ?g (dict_set (fst kv) (snd kv) ?inner) res)"
    by (auto simp: wf_groups_def list_all_iff)
  with wf show ?thesis
    by (simp add: wf_groups_def organize_step_def Let_def distinct_dict_set)
qed

lemma wf_groups_fold: "wf_groups acc \<Longrightarrow> wf_groups (fold (organize_step tax) flat acc)"
  by (induction flat arbitrary: acc) (simp_all add: wf_groups_step)

lemma lookup2_fold:
  "distinct (map fst flat) \<Longrightarrow>
   lookup2 (fold (organize_step tax) flat acc) g k
   = (if g = group_of_field tax k \<and> k \<in> fst ` set flat then map_of flat k else lookup2 acc g k)"
proof (induction flat arbitrary: acc)
  case Nil
  then show ?case by simp
next
  case (Cons kv flat)
  then show ?case
    by (cases kv) (auto simp: lookup2_step map_of_eq_None_iff image_iff)
qed

lemma lookup2_organize:
  "distinct (map fst flat) \<Longrightarrow>
   lookup2 (organize_into_groups tax flat) g k = (if g = group_of_field tax k then map_of flat k else None)"
proof -
  assume d: "distinct (map fst flat)"
  have n: "lookup2 [] g k = None" by (simp add: lookup2_def)
  have "k \<notin> fst ` set flat \<Longrightarrow> map_of flat k = None" by (simp add: map_of_eq_None_iff)
  with n show ?thesis
    unfolding organize_into_groups_def lookup2_fold [OF d] by auto
qed

lemma wf_groups_organize: "wf_groups (organize_into_groups tax flat)"
  unfolding organize_into_groups_def by (rule wf_groups_fold) (simp add: wf_groups_def)

lemma in_group_iff:
  assumes "wf_groups res"
  shows "(\<exists>fs. (g, fs) \<in> set res \<and> (k, v) \<in> set fs) \<longleftrightarrow> lookup2 res g k = Some v"
proof
  assume "\<exists>fs. (g, fs) \<in> set res \<and> (k, v) \<in> set fs"
  then obtain fs where 1: "(g, fs) \<in> set res" and 2: "(k, v) \<in> set fs" by blast
  from assms 1 have "map_of res g = Some fs" and "distinct (map fst fs)"
    by (auto simp: wf_groups_def list_all_iff)
  with 2 show "lookup2 res g k = Some v" by (simp add: lookup2_def)
next
  assume "lookup2 res g k = Some v"
  then obtain fs where "map_of res g = Some fs" "map_of fs k = Some v"
    by (auto simp: lookup2_def split: option.splits)
  then show "\<exists>fs. (g, fs) \<in> set res \<and> (k, v) \<in> set fs"
    by (blast dest: map_of_SomeD)
qed

text \<open>
  Claim C3. For a flat dictionary (distinct field names) and any table of known fields,
  every field of the input sits with its value in the group the table assigns to it, in
  no other group and with no other value; and a field that no known group recognises is
  assigned to the group \<open>Metadata\<close>.
\<close>

theorem grouping_total:
  assumes "distinct (map fst flat)" and "(k, v) \<in> set flat"
  shows "(\<exists>fs. (group_of_field tax k, fs) \<in> set (organize_into_groups tax flat) \<and> (k, v) \<in> set fs)
       \<and> (\<forall>g fs w. (g, fs) \<in> set (organize_into_groups tax flat) \<and> (k, w) \<in> set fs \<longrightarrow> g = group_of_field tax k \<and> w = v)
       \<and> ((\<forall>gp \<in> set tax. \<not> snd gp k) \<longrightarrow> group_of_field tax k = ''Metadata'')"
proof -
  let ?res = "organize_into_groups tax flat"
  note wf = wf_groups_organize [of tax flat]
  from assms have m: "map_of flat k = Some v" by simp
  have "lookup2 ?res (group_of_field tax k) k = Some v"
    using assms(1) m by (simp add: lookup2_organize)
  then have 1: "\<exists>fs. (group_of_field tax k, fs) \<in> set ?res \<and> (k, v) \<in> set fs"
    by (simp add: in_group_iff [OF wf])
  have 2: "g = group_of_field tax k \<and> w = v" if "(g, fs) \<in> set ?res" "(k, w) \<in> set fs" for g fs w
  proof -
    from that have "lookup2 ?res g k = Some w" using in_group_iff [OF wf] by blast
    with assms(1) m show ?thesis by (simp add: lookup2_organize split: if_splits)
  qed
  have 3: "group_of_field tax k = ''Metadata''" if "\<forall>gp \<in> set tax. \<not> snd gp k"
  proof -
    from that have "filter (\<lambda>gp. snd gp k) tax = []" by (simp add: filter_empty_conv)
    then show ?thesis by (simp add: group_of_field_def)
  qed
  from 1 2 3 show ?thesis by blast
qed

lemma spec_example_grouping:
  "organize_into_groups spec_taxonomy
     [(''First Name'', PStr ''John''), (''Project ID'', PStr ''EuTOX''), (''Random Key'', PStr ''value2'')]
   = [(''DataOwner'', [(''First Name'', PStr ''John'')]),
      (''InvestigationInfo'', [(''Project ID'', PStr ''EuTOX'')]),
      (''Metadata'', [(''Random Key'', PStr ''value2'')])]"
  by code_simp

theorem grouping_total_witness:
  "(\<exists>fs. (''Metadata'', fs) \<in> set (organize_into_groups spec_taxonomy
        [(''First Name'', PStr ''John''), (''Project ID'', PStr ''EuTOX''), (''Random Key'', PStr ''value2'')])
      \<and> (''Random Key'', PStr ''value2'') \<in> set fs)
   \<and> group_of_field spec_taxonomy ''Random Key'' = ''Metadata''"
proof -
  let ?flat = "[(''First Name'', PStr ''John''), (''Project ID'', PStr ''EuTOX''), (''Random Key'', PStr ''value2'')]"
  have h1: "distinct (map fst ?flat)" by simp
  have h2: "(''Random Key'', PStr ''value2'') \<in> set ?flat" by simp
  have h3: "\<forall>gp \<in> set spec_taxonomy. \<not> snd gp ''Random Key''" by (simp add: spec_taxonomy_def)
  from grouping_total [OF h1 h2, of spec_taxonomy] h3
  have g: "group_of_field spec_taxonomy ''Random Key'' = ''Metadata''" by blast
  from grouping_total [OF h1 h2, of spec_taxonomy]
  have "\<exists>fs. (group_of_field spec_taxonomy ''Random Key'', fs) \<in> set (organize_into_groups spec_taxonomy ?flat)
      \<and> (''Random Key'', PStr ''value2'') \<in> set fs" by blast
  with g show ?thesis by simp
qed

section \<open>Properties of the conditions sheet\<close>

lemma label_row_Nil [simp]: "label_row [] row = []" "label_row headers [] = []"
  by (simp_all add: label_row_def)

















lemma length_frame_row [simp]: "length (frame_row r) = length r"
  by (simp add: frame_row_def as_text_def)








text \<open>
  The reader takes the first row of every sheet as column labels, before the comment rows
  are dropped. A sheet that begins with the header row itself is therefore read without
  it, its first data row is taken for the header, and the parse fails for want of the
  columns.
\<close>

lemma header_in_first_row:
  "parse_assay_conditions ''AssayConditions''
     [[Some (XStr ''Plate''), Some (XStr ''Well''), Some (XStr ''Compound'')],
      [Some (XStr ''PlateA''), Some (XStr ''a1''), Some (XStr ''DMSO'')]]
     = Inl (ValueError ''Missing required 'Plate' or 'Well' column in AssayConditions'')"
  by code_simp

end
